theory Spec2Isabelle
  imports Main
begin

section \<open>JavaScript values used by the worker\<close>

text \<open>
  The worker (\<^verbatim>\<open>src/index.ts\<close>) reconciles a Zero Trust device inventory with the
  A records of a DNS zone. This theory embeds its functions: \<^verbatim>\<open>isIPv4\<close>,
  \<^verbatim>\<open>get_devices\<close>, \<^verbatim>\<open>get_ip\<close>, \<^verbatim>\<open>get_dns_records\<close>, \<^verbatim>\<open>update_dns_record\<close>,
  \<^verbatim>\<open>update_dns_records\<close> and the \<^verbatim>\<open>scheduled\<close> handler.

  A parsed JSON payload. Numbers are opaque to the code (it never computes with one), so an
  integer stands for them. A \<open>JObj\<close> lists the own properties of the parsed object.
\<close>

datatype json =
    JNull
  | JBool bool
  | JNum int
  | JStr string
  | JArr "json list"
  | JObj "(string \<times> json) list"

text \<open>A JavaScript value that came out of a payload: \<open>None\<close> is \<^verbatim>\<open>undefined\<close>.\<close>

type_synonym jsval = "json option"

text \<open>What the code can throw: a \<^verbatim>\<open>TypeError\<close> of the language, or an error of a remote call.\<close>

datatype error = TypeError | SyntaxError | ApiError

subsection \<open>Decimal digits\<close>

definition is_digit :: "char \<Rightarrow> bool" where
  "is_digit c = (c \<in> set ''0123456789'')"

definition digit_val :: "char \<Rightarrow> nat" where
  "digit_val c = length (takeWhile (\<lambda>d. d \<noteq> c) ''0123456789'')"

definition digit_char :: "nat \<Rightarrow> char" where
  "digit_char n = ''0123456789'' ! n"

text \<open>
  \<^verbatim>\<open>Number(part)\<close> on a string of decimal digits. The code only compares the result with
  255 and prints it back when it is at most 255; rounding to a double is monotone and exact
  below \<open>2^53\<close>, so the exact value decides both the same way.
\<close>

definition Number_digits :: "string \<Rightarrow> nat" where
  "Number_digits s = foldl (\<lambda>n c. 10 * n + digit_val c) 0 s"

text \<open>\<^verbatim>\<open>String(num)\<close> for a non-negative integer: its decimal digits, no leading zero.\<close>

fun String_nat :: "nat \<Rightarrow> string" where
  "String_nat n = (if n < 10 then [digit_char n] else String_nat (n div 10) @ [digit_char (n mod 10)])"

declare String_nat.simps [simp del]

subsection \<open>Objects used as dictionaries\<close>

text \<open>
  \<^verbatim>\<open>Devices\<close> and \<^verbatim>\<open>Records\<close> are plain objects keyed by identifier. \<^verbatim>\<open>Object.values\<close>,
  \<^verbatim>\<open>Object.entries\<close> and \<^verbatim>\<open>for ... in\<close> visit the own properties in the order of the
  language: keys that are array indices (canonical decimal strings below \<open>2^32 - 1\<close>) first,
  ascending, then every other key in the order of its first assignment. An object is the
  list of its properties in that order. The key \<^verbatim>\<open>__proto__\<close> is not an own property and is
  outside this model: identifiers are the opaque tags the provider issues.
\<close>

type_synonym 'v obj = "(string \<times> 'v) list"

definition is_array_index :: "string \<Rightarrow> bool" where
  "is_array_index k =
     (k \<noteq> [] \<and> list_all is_digit k \<and> String_nat (Number_digits k) = k
      \<and> Number_digits k < 2 ^ 32 - 1)"

text \<open>Where a new key goes: before the first property it has to precede.\<close>

definition goes_before :: "string \<Rightarrow> string \<Rightarrow> bool" where
  "goes_before k k' =
     (is_array_index k \<and>
      (if is_array_index k' then Number_digits k < Number_digits k' else True))"

fun obj_insert :: "string \<Rightarrow> 'v \<Rightarrow> 'v obj \<Rightarrow> 'v obj" where
  "obj_insert k v [] = [(k, v)]"
| "obj_insert k v ((k', v') # kvs) =
     (if goes_before k k' then (k, v) # (k', v') # kvs else (k', v') # obj_insert k v kvs)"

text \<open>\<^verbatim>\<open>obj[k] = v\<close>: an existing property keeps its place, a new one is inserted.\<close>

definition obj_set :: "string \<Rightarrow> 'v \<Rightarrow> 'v obj \<Rightarrow> 'v obj" where
  "obj_set k v ob =
     (if k \<in> fst ` set ob then map (\<lambda>(k', v'). if k' = k then (k', v) else (k', v')) ob
      else obj_insert k v ob)"

section \<open>isIPv4\<close>

text \<open>\<^verbatim>\<open>str.split(".")\<close>: the pieces between the dots; the empty string has one empty piece.\<close>

fun split_dot :: "string \<Rightarrow> string list" where
  "split_dot [] = [[]]"
| "split_dot (c # cs) =
     (if c = CHR ''.'' then [] # split_dot cs
      else (case split_dot cs of [] \<Rightarrow> [[c]] | p # ps \<Rightarrow> (c # p) # ps))"

text \<open>\<^verbatim>\<open>parts.join(".")\<close>.\<close>

fun join_dot :: "string list \<Rightarrow> string" where
  "join_dot [] = []"
| "join_dot [p] = p"
| "join_dot (p # q # ps) = p @ ''.'' @ join_dot (q # ps)"

text \<open>
  The callback of \<^verbatim>\<open>parts.every\<close>: the part matches \<^verbatim>\<open>/^\d+$/\<close>, its number is between
  0 and 255, and printing the number gives the part back.
\<close>

definition octet_ok :: "string \<Rightarrow> bool" where
  "octet_ok part =
     (if \<not> (part \<noteq> [] \<and> list_all is_digit part) then False
      else (let num = Number_digits part in 0 \<le> num \<and> num \<le> 255 \<and> String_nat num = part))"

definition isIPv4 :: "string \<Rightarrow> bool" where
  "isIPv4 str =
     (let parts = split_dot str in
      if length parts \<noteq> 4 then False else list_all octet_ok parts)"

text \<open>
  The validator as the specification words it: four decimal octets, each the canonical
  numeral of a number from 0 to 255, separated by dots.
\<close>

definition spec_ipv4 :: "string \<Rightarrow> bool" where
  "spec_ipv4 str =
     (\<exists>a b c d. a \<le> 255 \<and> b \<le> 255 \<and> c \<le> 255 \<and> d \<le> (255::nat) \<and>
        str = String_nat a @ ''.'' @ String_nat b @ ''.'' @ String_nat c @ ''.'' @ String_nat d)"

section \<open>The data of a cycle\<close>

text \<open>An item of the device listing, as far as the code reads it.\<close>

record device_observation =
  device_id :: string
  device_name :: string
  updated_at :: string

text \<open>
  \<^verbatim>\<open>type Device\<close>. \<open>updated\<close> is the time value of the \<^verbatim>\<open>Date\<close>, \<open>None\<close> for an invalid
  date. \<open>ip\<close> is declared \<^verbatim>\<open>string | null\<close>, but what is stored comes from a payload
  typed \<^verbatim>\<open>any\<close>, so it is any value.
\<close>

record device =
  name :: string
  updated :: "int option"
  ip :: jsval

type_synonym devices = "device obj"

text \<open>\<^verbatim>\<open>type Record\<close>, and an item of the record listing (its content may be absent).\<close>

record dns_record =
  record_name :: string
  content :: string

type_synonym records = "dns_record obj"

record api_record =
  record_id :: string
  api_name :: string
  api_content :: "string option"

record env =
  API_TOKEN :: "string option"
  ACCOUNT_ID :: "string option"
  ZONE_ID :: "string option"

text \<open>The answer of \<^verbatim>\<open>fetch\<close>: the status, and the parsed body (\<open>None\<close> when it is not JSON).\<close>

record response =
  status :: int
  body :: "json option"

section \<open>Effects\<close>

text \<open>The argument of \<^verbatim>\<open>CLIENT.dns.records.create\<close> and \<^verbatim>\<open>update\<close>.\<close>

record record_params =
  p_name :: string
  p_type :: string
  p_zone_id :: string
  p_content :: string
  p_ttl :: nat

datatype call = Create record_params | Update string record_params

text \<open>The three words of the last \<^verbatim>\<open>console.log\<close> of \<^verbatim>\<open>update_dns_record\<close>.\<close>

datatype outcome = updated_word | untouched_word | created_word

text \<open>One constructor for each \<^verbatim>\<open>console.log\<close> of the source, with the values it prints.\<close>

datatype message =
    MustBeSet
  | Updating string
  | FoundDevices nat
  | HasIp string jsval
  | EmptyMetadata string
  | FoundRecords nat
  | DnsRecordFor string outcome

text \<open>What a cycle does to the outside, in order.\<close>

datatype event =
    Log message
  | ZonesGet string
  | DevicesList string
  | Fetch string string string
  | RecordsList string
  | Call call

text \<open>
  The outside as one cycle meets it: what each remote call answers (\<open>Inl\<close> when it throws),
  and which record mutations the provider accepts (a rejected one throws).
\<close>

record services =
  zones_get :: "string \<Rightarrow> error + string"
  devices_list :: "string \<Rightarrow> error + device_observation list"
  fetch_warp :: "string \<Rightarrow> string \<Rightarrow> string \<Rightarrow> error + response"
  records_list :: "string \<Rightarrow> error + api_record list"
  accepts :: "call \<Rightarrow> bool"

text \<open>An \<^verbatim>\<open>async\<close> computation: the events it caused, and its value or what it threw.\<close>

type_synonym 'a io = "event list \<times> (error + 'a)"

definition ret :: "'a \<Rightarrow> 'a io" where
  "ret x = ([], Inr x)"

definition emit :: "event \<Rightarrow> unit io" where
  "emit e = ([e], Inr ())"

definition and_then :: "'a io \<Rightarrow> ('a \<Rightarrow> 'b io) \<Rightarrow> 'b io" where
  "and_then m f =
     (case m of
        (es, Inl e) \<Rightarrow> (es, Inl e)
      | (es, Inr x) \<Rightarrow> (case f x of (es', r) \<Rightarrow> (es @ es', r)))"

text \<open>A remote call: the event, then its answer.\<close>

definition remote :: "event \<Rightarrow> error + 'a \<Rightarrow> 'a io" where
  "remote e answer = ([e], answer)"

definition calls_of :: "event list \<Rightarrow> call list" where
  "calls_of es = concat (map (\<lambda>e. case e of Call c \<Rightarrow> [c] | _ \<Rightarrow> []) es)"

section \<open>get_devices\<close>

text \<open>\<^verbatim>\<open>a < b\<close> on two dates: the time values are compared, and an invalid date is \<^verbatim>\<open>NaN\<close>.\<close>

definition date_lt :: "int option \<Rightarrow> int option \<Rightarrow> bool" where
  "date_lt a b = (case a of None \<Rightarrow> False | Some x \<Rightarrow> (case b of None \<Rightarrow> False | Some y \<Rightarrow> x < y))"

text \<open>
  The body of the loop. \<open>Date\<close> is \<^verbatim>\<open>new Date(...)\<close> as a function from the timestamp's text
  to the time value.
\<close>

definition add_device :: "(string \<Rightarrow> int option) \<Rightarrow> devices \<Rightarrow> device_observation \<Rightarrow> devices" where
  "add_device Date devs ob =
     (let i = device_id ob;
          nm = device_name ob;
          upd = Date (updated_at ob);
          existing = filter (\<lambda>d. name d = nm) (map snd devs)
      in if (case existing of [] \<Rightarrow> True | e # _ \<Rightarrow> date_lt (updated e) upd)
         then obj_set i \<lparr>name = nm, updated = upd, ip = Some JNull\<rparr> devs
         else devs)"

text \<open>The loop over what the listing yields, from the empty object.\<close>

definition get_devices :: "(string \<Rightarrow> int option) \<Rightarrow> device_observation list \<Rightarrow> devices" where
  "get_devices Date obs = foldl (add_device Date) [] obs"

definition get_devices_call :: "services \<Rightarrow> (string \<Rightarrow> int option) \<Rightarrow> string \<Rightarrow> devices io" where
  "get_devices_call svc Date account_id =
     and_then (remote (DevicesList account_id) (devices_list svc account_id))
       (\<lambda>obs. ret (get_devices Date obs))"

section \<open>get_ip\<close>

text \<open>
  Reading a property \<^verbatim>\<open>v.k\<close> for the keys the code reads (\<^verbatim>\<open>success\<close>, \<^verbatim>\<open>result\<close>,
  \<^verbatim>\<open>metadata\<close>, \<^verbatim>\<open>ipv4\<close>): \<^verbatim>\<open>null\<close> and \<^verbatim>\<open>undefined\<close> throw, an object gives the
  property or \<^verbatim>\<open>undefined\<close>, every other value has no such property.
\<close>

definition get_prop :: "jsval \<Rightarrow> string \<Rightarrow> error + jsval" where
  "get_prop v k =
     (case v of
        None \<Rightarrow> Inl TypeError
      | Some JNull \<Rightarrow> Inl TypeError
      | Some (JObj kvs) \<Rightarrow> Inr (map_of kvs k)
      | Some _ \<Rightarrow> Inr None)"

text \<open>The \<^verbatim>\<open>try\<close> block: \<open>Inl\<close> is what the \<^verbatim>\<open>catch\<close> receives.\<close>

definition get_ip_try :: "response \<Rightarrow> error + jsval" where
  "get_ip_try r =
     (case body r of
        None \<Rightarrow> Inl SyntaxError
      | Some js \<Rightarrow>
          (case get_prop (Some js) ''success'' of
             Inl e \<Rightarrow> Inl e
           | Inr s \<Rightarrow>
               if s \<noteq> Some (JBool True) then Inr (Some JNull)
               else (case get_prop (Some js) ''result'' of
                       Inl e \<Rightarrow> Inl e
                     | Inr res \<Rightarrow>
                         (case get_prop res ''metadata'' of
                            Inl e \<Rightarrow> Inl e
                          | Inr md \<Rightarrow> get_prop md ''ipv4''))))"

text \<open>After the \<^verbatim>\<open>fetch\<close>: the value returned and what is logged.\<close>

definition get_ip_of :: "string \<Rightarrow> response \<Rightarrow> jsval io" where
  "get_ip_of dev_id r =
     (if status r \<noteq> 200 then ret (Some JNull)
      else (case get_ip_try r of
              Inr v \<Rightarrow> ret v
            | Inl ex \<Rightarrow> and_then (emit (Log (EmptyMetadata dev_id))) (\<lambda>_. ret (Some JNull))))"

definition get_ip :: "services \<Rightarrow> string \<Rightarrow> string \<Rightarrow> string \<Rightarrow> jsval io" where
  "get_ip svc account_id dev_id api_token =
     and_then (remote (Fetch account_id dev_id api_token) (fetch_warp svc account_id dev_id api_token))
       (get_ip_of dev_id)"

text \<open>
  The address field \<^verbatim>\<open>result.metadata.ipv4\<close> of a payload that has it: the payload is an
  object whose \<^verbatim>\<open>result\<close> is an object whose \<^verbatim>\<open>metadata\<close> is an object with the
  property \<^verbatim>\<open>ipv4\<close>.
\<close>

definition address_field :: "json \<Rightarrow> json option" where
  "address_field js =
     (case js of
        JObj root \<Rightarrow>
          (case map_of root ''result'' of
             Some (JObj res) \<Rightarrow>
               (case map_of res ''metadata'' of
                  Some (JObj md) \<Rightarrow> map_of md ''ipv4''
                | _ \<Rightarrow> None)
           | _ \<Rightarrow> None)
      | _ \<Rightarrow> None)"

text \<open>
  The answers that leave the address unknown: a status other than 200; a body that is not
  JSON; a payload whose \<^verbatim>\<open>success\<close> is not \<^verbatim>\<open>true\<close>; a payload without the address field
  (no result, no metadata block, an empty metadata block among them) or with \<^verbatim>\<open>null\<close> there.
\<close>

definition unknown_response :: "response \<Rightarrow> bool" where
  "unknown_response r =
     (if status r \<noteq> 200 then True
      else (case body r of
              None \<Rightarrow> True
            | Some js \<Rightarrow>
                if get_prop (Some js) ''success'' \<noteq> Inr (Some (JBool True)) then True
                else address_field js = None \<or> address_field js = Some JNull))"

section \<open>get_zone_name and get_dns_records\<close>

definition get_zone_name :: "services \<Rightarrow> string \<Rightarrow> string io" where
  "get_zone_name svc zone_id = remote (ZonesGet zone_id) (zones_get svc zone_id)"

text \<open>The loop of \<^verbatim>\<open>get_dns_records\<close> over what the listing yields.\<close>

definition add_record :: "records \<Rightarrow> api_record \<Rightarrow> records" where
  "add_record recs r =
     obj_set (record_id r)
       \<lparr>record_name = api_name r,
        content = (case api_content r of None \<Rightarrow> [] | Some c \<Rightarrow> c)\<rparr> recs"

definition get_dns_records :: "api_record list \<Rightarrow> records" where
  "get_dns_records listing = foldl add_record [] listing"

definition get_dns_records_call :: "services \<Rightarrow> string \<Rightarrow> records io" where
  "get_dns_records_call svc zone_id =
     and_then (remote (RecordsList zone_id) (records_list svc zone_id))
       (\<lambda>listing. ret (get_dns_records listing))"

section \<open>update_dns_record and update_dns_records\<close>

text \<open>
  \<^verbatim>\<open>String.prototype.toLowerCase\<close> is a parameter of the functions below, named
  \<open>toLowerCase\<close>: a function on text, about which nothing is assumed.
\<close>

text \<open>\<^verbatim>\<open>v ?? ''\<close>.\<close>

definition or_empty :: "jsval \<Rightarrow> json" where
  "or_empty v = (case v of None \<Rightarrow> JStr [] | Some JNull \<Rightarrow> JStr [] | Some x \<Rightarrow> x)"

text \<open>
  \<^verbatim>\<open>isIPv4(content)\<close> on a value of any type: only a string has \<^verbatim>\<open>split\<close>, on anything
  else the call throws.
\<close>

definition isIPv4_call :: "json \<Rightarrow> error + (string \<times> bool)" where
  "isIPv4_call v = (case v of JStr s \<Rightarrow> Inr (s, isIPv4 s) | _ \<Rightarrow> Inl TypeError)"

text \<open>A record mutation: the call is made, and it throws when the provider rejects it.\<close>

definition mutate :: "(call \<Rightarrow> bool) \<Rightarrow> call \<Rightarrow> unit io" where
  "mutate acc c = remote (Call c) (if acc c then Inr () else Inl ApiError)"

text \<open>The record name of a device: \<^verbatim>\<open>[device.name.toLowerCase(), zone_name].join('.')\<close>.\<close>

definition fqdn :: "(string \<Rightarrow> string) \<Rightarrow> string \<Rightarrow> device \<Rightarrow> string" where
  "fqdn toLowerCase zone_name dev = join_dot [toLowerCase (name dev), zone_name]"

text \<open>
  The content the function goes on with: the device's address when \<^verbatim>\<open>isIPv4\<close> returns true
  for it, nothing when it returns false or throws.
\<close>

definition address :: "device \<Rightarrow> string option" where
  "address dev =
     (case isIPv4_call (or_empty (ip dev)) of
        Inl e \<Rightarrow> None
      | Inr (cont, valid) \<Rightarrow> if valid then Some cont else None)"

definition update_dns_record ::
  "(string \<Rightarrow> string) \<Rightarrow> (call \<Rightarrow> bool) \<Rightarrow> string \<Rightarrow> string \<Rightarrow> records \<Rightarrow> device \<Rightarrow> unit io" where
  "update_dns_record toLowerCase acc zone_id zone_name recs dev =
     (let ttl = 300 in
      case isIPv4_call (or_empty (ip dev)) of
        Inl e \<Rightarrow> ([], Inl e)
      | Inr (cont, valid) \<Rightarrow>
          if \<not> valid then ret ()
          else
            (let nm = fqdn toLowerCase zone_name dev;
                 entries = filter (\<lambda>(i, r). record_name r = nm) recs;
                 exists = (length entries > 0);
                 params = \<lparr>p_name = nm, p_type = ''A'', p_zone_id = zone_id, p_content = cont,
                           p_ttl = ttl\<rparr>
             in and_then
                  (case entries of
                     (i, r) # _ \<Rightarrow>
                       if content r \<noteq> cont
                       then and_then (mutate acc (Update i params)) (\<lambda>_. ret True)
                       else ret False
                   | [] \<Rightarrow> and_then (mutate acc (Create params)) (\<lambda>_. ret False))
                  (\<lambda>updated.
                     emit (Log (DnsRecordFor nm
                       (if exists then (if updated then updated_word else untouched_word)
                        else created_word))))))"

text \<open>\<^verbatim>\<open>for (const id in devices)\<close>: one device after the other; what one throws ends the loop.\<close>

fun update_dns_records ::
  "(string \<Rightarrow> string) \<Rightarrow> (call \<Rightarrow> bool) \<Rightarrow> string \<Rightarrow> string \<Rightarrow> records \<Rightarrow> devices \<Rightarrow> unit io" where
  "update_dns_records toLowerCase acc zone_id zone_name recs [] = ret ()"
| "update_dns_records toLowerCase acc zone_id zone_name recs ((i, dev) # devs) =
     and_then (update_dns_record toLowerCase acc zone_id zone_name recs dev)
       (\<lambda>_. update_dns_records toLowerCase acc zone_id zone_name recs devs)"

section \<open>scheduled\<close>

text \<open>
  The body of the loop that finds the addresses, for the key \<open>i\<close>: a \<^verbatim>\<open>null\<close> answer
  leaves the device as it is, any other answer is stored and logged.
\<close>

definition find_ip :: "services \<Rightarrow> string \<Rightarrow> string \<Rightarrow> devices \<Rightarrow> string \<Rightarrow> devices io" where
  "find_ip svc account_id api_token devs i =
     and_then (get_ip svc account_id i api_token)
       (\<lambda>ipv. if ipv = Some JNull then ret devs
              else (case map_of devs i of
                      None \<Rightarrow> ([], Inl TypeError)
                    | Some d \<Rightarrow>
                        and_then (emit (Log (HasIp (name d) ipv)))
                          (\<lambda>_. ret (obj_set i (d\<lparr>ip := ipv\<rparr>) devs))))"

text \<open>The loop: \<open>ids\<close> are the keys still to visit.\<close>

fun find_ips :: "services \<Rightarrow> string \<Rightarrow> string \<Rightarrow> string list \<Rightarrow> devices \<Rightarrow> devices io" where
  "find_ips svc account_id api_token [] devs = ret devs"
| "find_ips svc account_id api_token (i # ids) devs =
     and_then (find_ip svc account_id api_token devs i)
       (find_ips svc account_id api_token ids)"

definition scheduled ::
  "services \<Rightarrow> (string \<Rightarrow> int option) \<Rightarrow> (string \<Rightarrow> string) \<Rightarrow> env \<Rightarrow> unit io" where
  "scheduled svc Date toLowerCase ev =
     (case ACCOUNT_ID ev of
        None \<Rightarrow> emit (Log MustBeSet)
      | Some account_id \<Rightarrow>
     (case ZONE_ID ev of
        None \<Rightarrow> emit (Log MustBeSet)
      | Some zone_id \<Rightarrow>
     (case API_TOKEN ev of
        None \<Rightarrow> emit (Log MustBeSet)
      | Some api_token \<Rightarrow>
          and_then (get_zone_name svc zone_id) (\<lambda>zone_name.
          and_then (emit (Log (Updating zone_name))) (\<lambda>_.
          and_then (get_devices_call svc Date account_id) (\<lambda>devs.
          and_then (emit (Log (FoundDevices (length devs)))) (\<lambda>_.
          and_then (find_ips svc account_id api_token (map fst devs) devs) (\<lambda>devs'.
          and_then (get_dns_records_call svc zone_id) (\<lambda>recs.
          and_then (emit (Log (FoundRecords (length recs)))) (\<lambda>_.
          update_dns_records toLowerCase (accepts svc) zone_id zone_name recs devs'))))))))))"

text \<open>
  What a cycle has in hand when it comes to list the records: the zone identifier, the zone
  name and the devices with their addresses; nothing when the credentials are not all set or
  one of the calls before has thrown.
\<close>

definition cycle_devices ::
  "services \<Rightarrow> (string \<Rightarrow> int option) \<Rightarrow> env \<Rightarrow> (string \<times> string \<times> devices) option" where
  "cycle_devices svc Date ev =
     (case ACCOUNT_ID ev of
        None \<Rightarrow> None
      | Some account_id \<Rightarrow>
     (case ZONE_ID ev of
        None \<Rightarrow> None
      | Some zone_id \<Rightarrow>
     (case API_TOKEN ev of
        None \<Rightarrow> None
      | Some api_token \<Rightarrow>
     (case zones_get svc zone_id of
        Inl e \<Rightarrow> None
      | Inr zone_name \<Rightarrow>
     (case devices_list svc account_id of
        Inl e \<Rightarrow> None
      | Inr obs \<Rightarrow>
     (case snd (find_ips svc account_id api_token (map fst (get_devices Date obs))
                 (get_devices Date obs)) of
        Inl e \<Rightarrow> None
      | Inr devs \<Rightarrow> Some (zone_id, zone_name, devs)))))))"

section \<open>The provider's record set\<close>

text \<open>
  The zone's A records after the provider has carried out a call, read as the object
  \<^verbatim>\<open>get_dns_records\<close> builds: \<^verbatim>\<open>create\<close> adds a record under the identifier the provider
  chooses (\<open>fresh\<close>), \<^verbatim>\<open>update\<close> overwrites the name and content of the record it names.
\<close>

definition apply_call :: "(records \<Rightarrow> string) \<Rightarrow> records \<Rightarrow> call \<Rightarrow> records" where
  "apply_call fresh recs c =
     (case c of
        Create p \<Rightarrow> obj_set (fresh recs) \<lparr>record_name = p_name p, content = p_content p\<rparr> recs
      | Update i p \<Rightarrow>
          if i \<in> fst ` set recs
          then obj_set i \<lparr>record_name = p_name p, content = p_content p\<rparr> recs
          else recs)"




section \<open>An example inventory\<close>


text \<open>
  The same zone with any inventory \<open>obs\<close>, any answer to the address lookup of a device,
  and a provider that accepts the calls \<open>acc\<close>.
\<close>

definition example_services ::
  "device_observation list \<Rightarrow> (string \<Rightarrow> response) \<Rightarrow> api_record list \<Rightarrow> (call \<Rightarrow> bool) \<Rightarrow> services" where
  "example_services obs answer listing acc =
     \<lparr>zones_get = (\<lambda>z. Inr ''example.com''),
      devices_list = (\<lambda>a. Inr obs),
      fetch_warp = (\<lambda>a d t. Inr (answer d)),
      records_list = (\<lambda>z. Inr listing),
      accepts = acc\<rparr>"

text \<open>An answer with the address \<open>s\<close>, and an answer whose metadata block is empty.\<close>

definition ipv4_answer :: "string \<Rightarrow> response" where
  "ipv4_answer s =
     \<lparr>status = 200, body = Some (JObj
        [(''success'', JBool True),
         (''result'', JObj [(''metadata'', JObj [(''ipv4'', JStr s)])])])\<rparr>"

definition empty_metadata_answer :: response where
  "empty_metadata_answer =
     \<lparr>status = 200, body = Some (JObj
        [(''success'', JBool True), (''result'', JObj [(''metadata'', JObj [])])])\<rparr>"

text \<open>
  \<^verbatim>\<open>toLowerCase\<close> on text made of ASCII characters only, as the names of the examples
  are: the letters A to Z are lowercased, every other ASCII character is kept.
\<close>

definition ascii_lower :: "string \<Rightarrow> string" where
  "ascii_lower s =
     map (\<lambda>c. case map_of (zip ''ABCDEFGHIJKLMNOPQRSTUVWXYZ'' ''abcdefghijklmnopqrstuvwxyz'') c of
                 None \<Rightarrow> c
               | Some l \<Rightarrow> l) s"

definition example_Date :: "string \<Rightarrow> int option" where
  "example_Date s =
     (if s = ''2024-01-01T00:00:00Z'' then Some 1704067200000
      else if s = ''2024-01-02T00:00:00Z'' then Some 1704153600000 else None)"

definition example_env :: env where
  "example_env =
     \<lparr>API_TOKEN = Some ''token'', ACCOUNT_ID = Some ''account'', ZONE_ID = Some ''z''\<rparr>"


section \<open>The branches of update_dns_record\<close>

text \<open>
  The function by its four ways out: it throws or returns at the \<open>isIPv4\<close> guard, it
  updates the first record with the name, it leaves that record untouched, or it creates a
  record. The log line is written only when the call, if any, did not throw.
\<close>

lemma update_dns_record_branches:
  "update_dns_record toLowerCase acc zone_id zone_name recs dev =
     (case isIPv4_call (or_empty (ip dev)) of
        Inl e \<Rightarrow> ([], Inl e)
      | Inr (cont, valid) \<Rightarrow>
          if \<not> valid then ret ()
          else
            (let nm = fqdn toLowerCase zone_name dev;
                 params = \<lparr>p_name = nm, p_type = ''A'', p_zone_id = zone_id, p_content = cont,
                           p_ttl = 300\<rparr>
             in case filter (\<lambda>(i, r). record_name r = nm) recs of
                  (i, r) # _ \<Rightarrow>
                    if content r \<noteq> cont
                    then and_then (mutate acc (Update i params))
                           (\<lambda>_. emit (Log (DnsRecordFor nm updated_word)))
                    else emit (Log (DnsRecordFor nm untouched_word))
                | [] \<Rightarrow>
                    and_then (mutate acc (Create params))
                      (\<lambda>_. emit (Log (DnsRecordFor nm created_word)))))"
proof (cases "isIPv4_call (or_empty (ip dev))")
  case (Inl e)
  then show ?thesis by (simp add: update_dns_record_def)
next
  case (Inr cv)
  obtain cont valid where cv: "cv = (cont, valid)" by (cases cv)
  show ?thesis
  proof (cases valid)
    case False
    then show ?thesis using Inr cv by (simp add: update_dns_record_def)
  next
    case True
    show ?thesis
    proof (cases "filter (\<lambda>(i, r). record_name r = fqdn toLowerCase zone_name dev) recs")
      case Nil
      then show ?thesis using Inr cv True
        by (simp add: update_dns_record_def Let_def and_then_def mutate_def remote_def ret_def
            emit_def)
    next
      case (Cons e es)
      obtain i r where e: "e = (i, r)" by (cases e)
      show ?thesis using Inr cv True Cons e
        by (simp add: update_dns_record_def Let_def and_then_def mutate_def remote_def ret_def
            emit_def)
    qed
  qed
qed

section \<open>Properties of isIPv4\<close>

lemma digit_cases:
  "d < 10 \<Longrightarrow> d = 0 \<or> d = 1 \<or> d = 2 \<or> d = 3 \<or> d = 4 \<or> d = 5 \<or> d = 6 \<or> d = 7 \<or> d = 8 \<or> d = (9::nat)"
  by arith

lemma digit_val_digit_char: "d < 10 \<Longrightarrow> digit_val (digit_char d) = d"
  using digit_cases [of d] by (auto simp: digit_val_def digit_char_def)

lemma is_digit_digit_char: "d < 10 \<Longrightarrow> is_digit (digit_char d)"
  using digit_cases [of d] by (auto simp: is_digit_def digit_char_def)

lemma is_digit_not_dot: "is_digit c \<Longrightarrow> c \<noteq> CHR ''.''"
  by (auto simp: is_digit_def)

lemma Number_digits_snoc: "Number_digits (s @ [c]) = 10 * Number_digits s + digit_val c"
  by (simp add: Number_digits_def)

lemma String_nat_digits: "list_all is_digit (String_nat n)"
proof (induction n rule: String_nat.induct)
  case (1 n)
  show ?case
  proof (cases "n < 10")
    case True
    then show ?thesis by (simp add: String_nat.simps [of n] is_digit_digit_char)
  next
    case False
    then have "list_all is_digit (String_nat (n div 10))" using 1 by simp
    moreover have "is_digit (digit_char (n mod 10))" by (simp add: is_digit_digit_char)
    ultimately show ?thesis using False by (simp add: String_nat.simps [of n])
  qed
qed

lemma String_nat_ne: "String_nat n \<noteq> []"
  by (simp add: String_nat.simps [of n])

lemma Number_String_nat: "Number_digits (String_nat n) = n"
proof (induction n rule: String_nat.induct)
  case (1 n)
  show ?case
  proof (cases "n < 10")
    case True
    then show ?thesis
      by (simp add: String_nat.simps [of n] Number_digits_def digit_val_digit_char)
  next
    case False
    then have "Number_digits (String_nat (n div 10)) = n div 10" using 1 by simp
    then show ?thesis using False
      by (simp add: String_nat.simps [of n] Number_digits_snoc digit_val_digit_char)
  qed
qed

lemma String_nat_nodot: "CHR ''.'' \<notin> set (String_nat n)"
  using String_nat_digits [of n] is_digit_not_dot by (auto simp: list_all_iff)

text \<open>A part passes the callback exactly when it is the numeral of a number up to 255.\<close>

lemma octet_ok_iff: "octet_ok p \<longleftrightarrow> (\<exists>n. n \<le> 255 \<and> p = String_nat n)"
proof
  assume "octet_ok p"
  then have "Number_digits p \<le> 255 \<and> String_nat (Number_digits p) = p"
    by (simp add: octet_ok_def Let_def split: if_splits)
  then show "\<exists>n. n \<le> 255 \<and> p = String_nat n" by metis
next
  assume "\<exists>n. n \<le> 255 \<and> p = String_nat n"
  then obtain n where "n \<le> 255" "p = String_nat n" by blast
  then show "octet_ok p"
    by (simp add: octet_ok_def String_nat_ne String_nat_digits Number_String_nat)
qed

lemma split_dot_ne: "split_dot s \<noteq> []"
  by (induction s) (auto split: list.splits)

lemma join_dot_Cons: "join_dot ((c # p) # ps) = c # join_dot (p # ps)"
  by (cases ps) auto

text \<open>Joining the pieces of a split gives the string back.\<close>

lemma join_split: "join_dot (split_dot s) = s"
proof (induction s)
  case Nil
  show ?case by simp
next
  case (Cons c cs)
  obtain p ps where ps: "split_dot cs = p # ps"
    using split_dot_ne [of cs] by (cases "split_dot cs") auto
  show ?case
  proof (cases "c = CHR ''.''")
    case True
    then show ?thesis using Cons ps by simp
  next
    case False
    then show ?thesis using Cons ps by (simp add: join_dot_Cons)
  qed
qed

lemma split_dot_nodot: "CHR ''.'' \<notin> set s \<Longrightarrow> split_dot s = [s]"
  by (induction s) auto

lemma split_dot_append:
  "CHR ''.'' \<notin> set a \<Longrightarrow> split_dot (a @ CHR ''.'' # rest) = a # split_dot rest"
  by (induction a) auto

lemma isIPv4_iff_spec: "isIPv4 str \<longleftrightarrow> spec_ipv4 str"
proof
  assume "isIPv4 str"
  then have len: "length (split_dot str) = 4" and ok: "list_all octet_ok (split_dot str)"
    by (auto simp: isIPv4_def Let_def split: if_splits)
  from len obtain a b c d where parts: "split_dot str = [a, b, c, d]"
    by (auto simp: length_Suc_conv numeral_eq_Suc)
  from ok parts obtain na nb nc nd where
    "na \<le> 255" "a = String_nat na" "nb \<le> 255" "b = String_nat nb"
    "nc \<le> 255" "c = String_nat nc" "nd \<le> 255" "d = String_nat nd"
    by (auto simp: octet_ok_iff)
  moreover have "str = a @ ''.'' @ b @ ''.'' @ c @ ''.'' @ d"
    using join_split [of str] parts by simp
  ultimately show "spec_ipv4 str" unfolding spec_ipv4_def by blast
next
  assume "spec_ipv4 str"
  then obtain a b c d where le: "a \<le> 255" "b \<le> 255" "c \<le> 255" "d \<le> (255::nat)"
    and str: "str = String_nat a @ ''.'' @ String_nat b @ ''.'' @ String_nat c @ ''.'' @ String_nat d"
    unfolding spec_ipv4_def by blast
  have "split_dot str = [String_nat a, String_nat b, String_nat c, String_nat d]"
    unfolding str by (simp add: split_dot_append split_dot_nodot String_nat_nodot)
  moreover have "octet_ok (String_nat a)" "octet_ok (String_nat b)"
    "octet_ok (String_nat c)" "octet_ok (String_nat d)"
    using le octet_ok_iff by blast+
  ultimately show "isIPv4 str" by (simp add: isIPv4_def)
qed

text \<open>The definitions that evaluate \<open>isIPv4\<close> on a literal.\<close>

lemmas isIPv4_eval =
  isIPv4_def octet_ok_def is_digit_def Number_digits_def digit_val_def String_nat.simps
  digit_char_def

lemma isIPv4_examples:
  "isIPv4 ''10.0.0.1''" "\<not> isIPv4 ''10.0.0.256''" "\<not> isIPv4 ''10.0.0''"
  "\<not> isIPv4 ''abc.def.gh.i''"
  by (simp_all add: isIPv4_eval)

text \<open>A device without a validated address: nothing is called and nothing is logged.\<close>

lemma no_address_no_events:
  "address dev = None \<Longrightarrow> fst (update_dns_record toLowerCase acc zone_id zone_name recs dev) = []"
  by (auto simp: address_def update_dns_record_branches ret_def split: sum.splits if_splits)

text \<open>
  Claim C5. \<open>isIPv4\<close> accepts \<open>10.0.0.1\<close> and rejects \<open>10.0.0.256\<close>, \<open>10.0.0\<close> and
  \<open>abc.def.gh.i\<close>; it accepts exactly the strings of four dot-separated decimal octets, each
  the canonical numeral of a number from 0 to 255; and for a device whose address does not
  pass it, \<open>update_dns_record\<close> makes no create and no update call.
\<close>

theorem isIPv4_validates:
  "isIPv4 ''10.0.0.1'' \<and> \<not> isIPv4 ''10.0.0.256'' \<and> \<not> isIPv4 ''10.0.0'' \<and>
   \<not> isIPv4 ''abc.def.gh.i'' \<and>
   (isIPv4 str \<longleftrightarrow> spec_ipv4 str) \<and>
   (address dev = None \<longrightarrow>
      calls_of (fst (update_dns_record toLowerCase acc zone_id zone_name recs dev)) = [])"
  using isIPv4_examples isIPv4_iff_spec [of str]
    no_address_no_events [of dev toLowerCase acc zone_id zone_name recs]
  by (simp add: calls_of_def)

theorem isIPv4_validates_witness:
  "address \<lparr>name = ''a'', updated = None, ip = Some (JStr ''10.0.0.256'')\<rparr> = None \<and>
   spec_ipv4 ''10.0.0.1'' \<and>
   calls_of (fst (update_dns_record ascii_lower (\<lambda>c. True) ''z'' ''example.com'' []
     \<lparr>name = ''a'', updated = None, ip = Some (JStr ''10.0.0.256'')\<rparr>)) = []"
proof -
  have a: "address \<lparr>name = ''a'', updated = None, ip = Some (JStr ''10.0.0.256'')\<rparr> = None"
    by (simp add: address_def or_empty_def isIPv4_call_def isIPv4_examples)
  show ?thesis
    using a isIPv4_validates [of "''10.0.0.1''"
        "\<lparr>name = ''a'', updated = None, ip = Some (JStr ''10.0.0.256'')\<rparr>"
        ascii_lower "\<lambda>c. True" "''z''" "''example.com''" "[]"]
    by blast
qed

section \<open>Properties of objects\<close>

lemma set_obj_insert: "set (obj_insert k v ob) = insert (k, v) (set ob)"
  by (induction ob) (auto split: if_splits)

lemma map_of_obj_insert: "k \<notin> fst ` set ob \<Longrightarrow> map_of (obj_insert k v ob) = (map_of ob)(k \<mapsto> v)"
  by (induction ob) (auto simp: fun_eq_iff)

lemma map_of_replace:
  "map_of (map (\<lambda>(k', v'). if k' = k then (k', v) else (k', v')) ob) x =
     (if x = k then map_option (\<lambda>_. v) (map_of ob k) else map_of ob x)"
  by (induction ob) auto

lemma map_of_obj_set: "map_of (obj_set k v ob) = (map_of ob)(k \<mapsto> v)"
proof (cases "k \<in> fst ` set ob")
  case True
  then obtain w where "map_of ob k = Some w"
    by (metis map_of_eq_None_iff not_None_eq)
  then show ?thesis using True by (auto simp: obj_set_def map_of_replace fun_eq_iff)
next
  case False
  then show ?thesis by (simp add: obj_set_def map_of_obj_insert)
qed

lemma keys_obj_set: "fst ` set (obj_set k v ob) = insert k (fst ` set ob)"
  by (force simp: obj_set_def set_obj_insert split: if_splits)

lemma distinct_obj_insert:
  "k \<notin> fst ` set ob \<Longrightarrow> distinct (map fst ob) \<Longrightarrow> distinct (map fst (obj_insert k v ob))"
  by (induction ob) (auto simp: set_obj_insert)

lemma fst_replace: "fst \<circ> (\<lambda>(k', v'). if k' = k then (k', v) else (k', v')) = fst"
  by (auto simp: fun_eq_iff)

lemma map_fst_replace: "map fst (map (\<lambda>(k', v'). if k' = k then (k', v) else (k', v')) ob) = map fst ob"
  by (simp add: fst_replace)

lemma distinct_obj_set: "distinct (map fst ob) \<Longrightarrow> distinct (map fst (obj_set k v ob))"
  by (simp add: obj_set_def fst_replace distinct_obj_insert)

section \<open>Properties of update_dns_record\<close>

text \<open>\<^verbatim>\<open>entries[0]\<close> is the first entry with the name, if there is one.\<close>

lemma find_filter_None: "find P xs = None \<Longrightarrow> filter P xs = []"
  by (induction xs) (auto split: if_splits)

lemma find_filter_Some: "find P xs = Some x \<Longrightarrow> \<exists>rest. filter P xs = x # rest"
  by (induction xs) (auto split: if_splits)

lemma find_Some_mem: "find P xs = Some x \<Longrightarrow> x \<in> set xs \<and> P x"
  by (induction xs) (auto split: if_splits)

lemma address_Some: "address dev = Some cont \<Longrightarrow> isIPv4_call (or_empty (ip dev)) = Inr (cont, True)"
  by (auto simp: address_def split: sum.splits if_splits)

lemma update_case:
  assumes "address dev = Some cont"
    and "find (\<lambda>(i, r). record_name r = fqdn toLowerCase zone_name dev) recs = Some (i, r)"
    and "content r \<noteq> cont"
  shows "update_dns_record toLowerCase acc zone_id zone_name recs dev =
     and_then (mutate acc (Update i \<lparr>p_name = fqdn toLowerCase zone_name dev, p_type = ''A'', p_zone_id = zone_id, p_content = cont, p_ttl = 300\<rparr>))
                           (\<lambda>_. emit (Log (DnsRecordFor (fqdn toLowerCase zone_name dev) updated_word)))"
  using find_filter_Some [OF assms(2)] address_Some [OF assms(1)] assms(3)
  by (auto simp: update_dns_record_branches Let_def)

lemma untouched_case:
  assumes "address dev = Some cont"
    and "find (\<lambda>(i, r). record_name r = fqdn toLowerCase zone_name dev) recs = Some (i, r)"
    and "content r = cont"
  shows "update_dns_record toLowerCase acc zone_id zone_name recs dev = emit (Log (DnsRecordFor (fqdn toLowerCase zone_name dev) untouched_word))"
  using find_filter_Some [OF assms(2)] address_Some [OF assms(1)] assms(3)
  by (auto simp: update_dns_record_branches Let_def)

lemma create_case:
  assumes "address dev = Some cont"
    and "find (\<lambda>(i, r). record_name r = fqdn toLowerCase zone_name dev) recs = None"
  shows "update_dns_record toLowerCase acc zone_id zone_name recs dev =
     and_then (mutate acc (Create \<lparr>p_name = fqdn toLowerCase zone_name dev, p_type = ''A'', p_zone_id = zone_id, p_content = cont, p_ttl = 300\<rparr>))
                           (\<lambda>_. emit (Log (DnsRecordFor (fqdn toLowerCase zone_name dev) created_word)))"
  using find_filter_None [OF assms(2)] address_Some [OF assms(1)]
  by (auto simp: update_dns_record_branches Let_def)

lemma calls_mutate_then_log:
  "calls_of (fst (and_then (mutate acc c) (\<lambda>_. emit (Log m)))) = [c]"
  by (simp add: and_then_def mutate_def remote_def emit_def calls_of_def)


lemma no_match_find_None:
  "nm \<notin> record_name ` snd ` set recs \<Longrightarrow> find (\<lambda>(i, r). record_name r = nm) recs = None"
  by (force simp: find_None_iff)

text \<open>
  Claim C3. For a device with a validated IPv4 address: when the first record whose name is
  the device's fully-qualified name has another content, the calls made are exactly one
  update of that record, carrying the name, type A, the desired content and TTL 300, and no
  create; when no record has that name, the calls made are exactly one create with the
  name, type A, the desired content and TTL 300.
\<close>

theorem create_or_update:
  assumes "address dev = Some cont"
  shows "(find (\<lambda>(i, r). record_name r = fqdn toLowerCase zone_name dev) recs = Some (i, r) \<and> content r \<noteq> cont \<longrightarrow>
            calls_of (fst (update_dns_record toLowerCase acc zone_id zone_name recs dev)) =
              [Update i \<lparr>p_name = fqdn toLowerCase zone_name dev, p_type = ''A'', p_zone_id = zone_id,
                         p_content = cont, p_ttl = 300\<rparr>]) \<and>
         (fqdn toLowerCase zone_name dev \<notin> record_name ` snd ` set recs \<longrightarrow>
            calls_of (fst (update_dns_record toLowerCase acc zone_id zone_name recs dev)) =
              [Create \<lparr>p_name = fqdn toLowerCase zone_name dev, p_type = ''A'', p_zone_id = zone_id,
                       p_content = cont, p_ttl = 300\<rparr>])"
  using assms
  by (auto simp: update_case create_case no_match_find_None calls_mutate_then_log)

theorem create_or_update_witness:
  "address \<lparr>name = ''a'', updated = None, ip = Some (JStr ''2.2.2.2'')\<rparr> = Some ''2.2.2.2'' \<and>
   calls_of (fst (update_dns_record ascii_lower (\<lambda>c. True) ''z'' ''example.com''
      [(''r1'', \<lparr>record_name = ''a.example.com'', content = ''1.1.1.1''\<rparr>)]
      \<lparr>name = ''a'', updated = None, ip = Some (JStr ''2.2.2.2'')\<rparr>)) =
     [Update ''r1'' \<lparr>p_name = ''a.example.com'', p_type = ''A'', p_zone_id = ''z'',
                     p_content = ''2.2.2.2'', p_ttl = 300\<rparr>] \<and>
   calls_of (fst (update_dns_record ascii_lower (\<lambda>c. True) ''z'' ''example.com'' []
      \<lparr>name = ''a'', updated = None, ip = Some (JStr ''2.2.2.2'')\<rparr>)) =
     [Create \<lparr>p_name = ''a.example.com'', p_type = ''A'', p_zone_id = ''z'',
               p_content = ''2.2.2.2'', p_ttl = 300\<rparr>]"
proof -
  let ?d = "\<lparr>name = ''a'', updated = None, ip = Some (JStr ''2.2.2.2'')\<rparr>"
  let ?r = "\<lparr>record_name = ''a.example.com'', content = ''1.1.1.1''\<rparr>"
  have v: "isIPv4 ''2.2.2.2''" by (simp add: isIPv4_eval)
  have a: "address ?d = Some ''2.2.2.2''"
    by (simp add: address_def or_empty_def isIPv4_call_def v)
  have n: "fqdn ascii_lower ''example.com'' ?d = ''a.example.com''"
    by (simp add: fqdn_def ascii_lower_def)
  have f: "find (\<lambda>(i, r). record_name r = fqdn ascii_lower ''example.com'' ?d) [(''r1'', ?r)] = Some (''r1'', ?r)"
    by (simp add: n)
  have c: "content ?r \<noteq> ''2.2.2.2''" by simp
  have e: "fqdn ascii_lower ''example.com'' ?d \<notin> record_name ` snd ` set []" by simp
  show ?thesis
    using a create_or_update [OF a, of ascii_lower "''example.com''" "[(''r1'', ?r)]" "''r1''" ?r "\<lambda>c. True" "''z''"]
      create_or_update [OF a, of ascii_lower "''example.com''" "[]" "''r1''" ?r "\<lambda>c. True" "''z''"] f c e
    unfolding n by blast
qed

text \<open>
  Claim C4. For a device with a validated IPv4 address whose matched record (the first
  with the device's fully-qualified name) already holds that address: the function only logs
  "untouched" and returns; it makes no create and no update call, so the provider's record
  set, the matched record included, is what it was.
\<close>

theorem matching_record_untouched:
  assumes "address dev = Some cont"
    and "find (\<lambda>(i, r). record_name r = fqdn toLowerCase zone_name dev) recs = Some (i, r)"
    and "content r = cont"
  shows "update_dns_record toLowerCase acc zone_id zone_name recs dev =
           ([Log (DnsRecordFor (fqdn toLowerCase zone_name dev) untouched_word)], Inr ()) \<and>
         calls_of (fst (update_dns_record toLowerCase acc zone_id zone_name recs dev)) = [] \<and>
         foldl (apply_call fresh) recs
           (calls_of (fst (update_dns_record toLowerCase acc zone_id zone_name recs dev))) = recs"
  by (simp add: untouched_case [OF assms] emit_def calls_of_def)

theorem matching_record_untouched_witness:
  "address \<lparr>name = ''Laptop-01'', updated = None, ip = Some (JStr ''10.0.0.1'')\<rparr> = Some ''10.0.0.1'' \<and>
   update_dns_record ascii_lower (\<lambda>c. True) ''z'' ''example.com''
      [(''r1'', \<lparr>record_name = ''laptop-01.example.com'', content = ''10.0.0.1''\<rparr>)]
      \<lparr>name = ''Laptop-01'', updated = None, ip = Some (JStr ''10.0.0.1'')\<rparr> =
     ([Log (DnsRecordFor ''laptop-01.example.com'' untouched_word)], Inr ())"
proof -
  let ?d = "\<lparr>name = ''Laptop-01'', updated = None, ip = Some (JStr ''10.0.0.1'')\<rparr>"
  let ?r = "\<lparr>record_name = ''laptop-01.example.com'', content = ''10.0.0.1''\<rparr>"
  have a: "address ?d = Some ''10.0.0.1''"
    by (simp add: address_def or_empty_def isIPv4_call_def isIPv4_examples)
  have n: "fqdn ascii_lower ''example.com'' ?d = ''laptop-01.example.com''"
    by (simp add: fqdn_def ascii_lower_def)
  have f: "find (\<lambda>(i, r). record_name r = fqdn ascii_lower ''example.com'' ?d) [(''r1'', ?r)] = Some (''r1'', ?r)"
    by (simp add: n)
  have c: "content ?r = ''10.0.0.1''" by simp
  show ?thesis
    using a matching_record_untouched [OF a f c, of "\<lambda>c. True" "''z''"]
    unfolding n by blast
qed

section \<open>Properties of get_dns_records\<close>

lemma distinct_add_record: "distinct (map fst recs) \<Longrightarrow> distinct (map fst (add_record recs x))"
  by (simp add: add_record_def distinct_obj_set)

lemma distinct_foldl_add_record:
  "distinct (map fst recs) \<Longrightarrow> distinct (map fst (foldl add_record recs xs))"
  by (induction xs arbitrary: recs) (simp_all add: distinct_add_record)

lemma distinct_get_dns_records: "distinct (map fst (get_dns_records listing))"
  by (simp add: get_dns_records_def distinct_foldl_add_record)

lemma map_of_foldl_add_record_other:
  "k \<notin> record_id ` set ys \<Longrightarrow> map_of (foldl add_record recs ys) k = map_of recs k"
  by (induction ys arbitrary: recs) (auto simp: add_record_def map_of_obj_set)

lemma map_of_get_dns_records_last:
  assumes "record_id x \<notin> record_id ` set ys"
  shows "map_of (get_dns_records (xs @ x # ys)) (record_id x) =
           Some \<lparr>record_name = api_name x,
                 content = (case api_content x of None \<Rightarrow> [] | Some c \<Rightarrow> c)\<rparr>"
  using assms
  by (simp add: get_dns_records_def map_of_foldl_add_record_other add_record_def map_of_obj_set)

lemma find_map_of:
  "find P recs = Some (k, r) \<Longrightarrow> distinct (map fst recs) \<Longrightarrow> map_of recs k = Some r"
  using find_Some_mem [of P recs "(k, r)"] by simp

lemma isIPv4_empty: "\<not> isIPv4 []"
  by (simp add: isIPv4_def)

lemma address_valid: "address dev = Some cont \<Longrightarrow> isIPv4 cont"
  by (auto simp: address_def isIPv4_call_def split: sum.splits if_splits json.splits)

text \<open>
  Claim C10. A listed record without a content field is stored with the empty string as its
  content. The empty string is no IPv4 address, so a device with a validated address, for
  which the first record with the device's fully-qualified name is such a record, always
  makes one update call for that record, and "untouched" is never logged.
\<close>

theorem record_without_content_updated:
  assumes "api_content x = None"
    and "record_id x \<notin> record_id ` set ys"
    and "address dev = Some cont"
    and "find (\<lambda>(i, r). record_name r = fqdn toLowerCase zone_name dev) (get_dns_records (xs @ x # ys)) =
           Some (record_id x, r)"
  shows "content r = [] \<and>
         calls_of (fst (update_dns_record toLowerCase acc zone_id zone_name (get_dns_records (xs @ x # ys)) dev)) =
           [Update (record_id x) \<lparr>p_name = fqdn toLowerCase zone_name dev, p_type = ''A'', p_zone_id = zone_id,
                                  p_content = cont, p_ttl = 300\<rparr>] \<and>
         Log (DnsRecordFor (fqdn toLowerCase zone_name dev) untouched_word) \<notin>
           set (fst (update_dns_record toLowerCase acc zone_id zone_name (get_dns_records (xs @ x # ys)) dev))"
proof -
  have "map_of (get_dns_records (xs @ x # ys)) (record_id x) = Some r"
    using find_map_of [OF assms(4) distinct_get_dns_records] .
  then have r: "content r = []"
    using map_of_get_dns_records_last [OF assms(2), of xs] assms(1) by auto
  have ne: "content r \<noteq> cont"
    using r address_valid [OF assms(3)] isIPv4_empty by auto
  note upd = update_case [OF assms(3) assms(4) ne, of acc zone_id]
  have c: "calls_of (fst (update_dns_record toLowerCase acc zone_id zone_name (get_dns_records (xs @ x # ys)) dev)) =
           [Update (record_id x) \<lparr>p_name = fqdn toLowerCase zone_name dev, p_type = ''A'', p_zone_id = zone_id,
                                  p_content = cont, p_ttl = 300\<rparr>]"
    by (simp add: upd calls_mutate_then_log)
  have l: "Log (DnsRecordFor (fqdn toLowerCase zone_name dev) untouched_word) \<notin>
           set (fst (update_dns_record toLowerCase acc zone_id zone_name (get_dns_records (xs @ x # ys)) dev))"
    by (simp add: upd and_then_def mutate_def remote_def emit_def)
  show ?thesis using r c l by simp
qed

theorem record_without_content_updated_witness:
  "address \<lparr>name = ''a'', updated = None, ip = Some (JStr ''10.0.0.1'')\<rparr> = Some ''10.0.0.1'' \<and>
   get_dns_records [\<lparr>record_id = ''r1'', api_name = ''a.example.com'', api_content = None\<rparr>] =
     [(''r1'', \<lparr>record_name = ''a.example.com'', content = []\<rparr>)] \<and>
   calls_of (fst (update_dns_record ascii_lower (\<lambda>c. True) ''z'' ''example.com''
      (get_dns_records [\<lparr>record_id = ''r1'', api_name = ''a.example.com'', api_content = None\<rparr>])
      \<lparr>name = ''a'', updated = None, ip = Some (JStr ''10.0.0.1'')\<rparr>)) =
     [Update ''r1'' \<lparr>p_name = ''a.example.com'', p_type = ''A'', p_zone_id = ''z'',
                     p_content = ''10.0.0.1'', p_ttl = 300\<rparr>]"
proof -
  let ?d = "\<lparr>name = ''a'', updated = None, ip = Some (JStr ''10.0.0.1'')\<rparr>"
  let ?x = "\<lparr>record_id = ''r1'', api_name = ''a.example.com'', api_content = None\<rparr>"
  let ?r = "\<lparr>record_name = ''a.example.com'', content = []\<rparr>"
  have a: "address ?d = Some ''10.0.0.1''"
    by (simp add: address_def or_empty_def isIPv4_call_def isIPv4_examples)
  have n: "fqdn ascii_lower ''example.com'' ?d = ''a.example.com''"
    by (simp add: fqdn_def ascii_lower_def)
  have g: "get_dns_records [?x] = [(''r1'', ?r)]"
    by (simp add: get_dns_records_def add_record_def obj_set_def)
  have f: "find (\<lambda>(i, r). record_name r = fqdn ascii_lower ''example.com'' ?d) (get_dns_records ([] @ ?x # [])) =
             Some (record_id ?x, ?r)"
    by (simp add: g n)
  have c: "api_content ?x = None" by simp
  have l: "record_id ?x \<notin> record_id ` set []" by simp
  show ?thesis
    using a g record_without_content_updated [OF c l a f, of "\<lambda>c. True" "''z''"]
    unfolding n by simp
qed

section \<open>Properties of scheduled\<close>

text \<open>
  Claim C9. When one of the three credentials is not set, \<open>scheduled\<close> logs that they must
  be set and returns: the events of the cycle are that one log line, so no zone-name lookup,
  no device listing, no address lookup, no record listing and no record mutation is made.
\<close>

theorem missing_credentials_abort:
  assumes "ACCOUNT_ID ev = None \<or> ZONE_ID ev = None \<or> API_TOKEN ev = None"
  shows "scheduled svc Date toLowerCase ev = ([Log MustBeSet], Inr ())"
  using assms by (auto simp: scheduled_def emit_def split: option.splits)

theorem missing_credentials_abort_witness:
  "API_TOKEN \<lparr>API_TOKEN = None, ACCOUNT_ID = Some ''account'', ZONE_ID = Some ''zone''\<rparr> = None \<and>
   scheduled
     \<lparr>zones_get = (\<lambda>z. Inr ''example.com''), devices_list = (\<lambda>a. Inr []),
      fetch_warp = (\<lambda>a d t. Inl ApiError), records_list = (\<lambda>z. Inr []),
      accepts = (\<lambda>c. True)\<rparr>
     (\<lambda>s. None) ascii_lower
     \<lparr>API_TOKEN = None, ACCOUNT_ID = Some ''account'', ZONE_ID = Some ''zone''\<rparr> =
   ([Log MustBeSet], Inr ())"
proof -
  let ?ev = "\<lparr>API_TOKEN = None, ACCOUNT_ID = Some ''account'', ZONE_ID = Some ''zone''\<rparr>"
  have h: "ACCOUNT_ID ?ev = None \<or> ZONE_ID ?ev = None \<or> API_TOKEN ?ev = None" by simp
  show ?thesis using missing_credentials_abort [OF h] by simp
qed

section \<open>Properties of get_ip\<close>

lemma get_prop_Some:
  "get_prop v k = Inr (Some x) \<Longrightarrow> \<exists>kvs. v = Some (JObj kvs) \<and> map_of kvs k = Some x"
  by (auto simp: get_prop_def split: option.splits json.splits)

text \<open>A value other than \<^verbatim>\<open>null\<close> and \<^verbatim>\<open>undefined\<close> is returned only from the address field.\<close>

lemma get_ip_try_value:
  assumes "body r = Some js" and "get_ip_try r = Inr (Some x)" and "x \<noteq> JNull"
  shows "address_field js = Some x"
proof -
  from assms obtain res md where
    "get_prop (Some js) ''result'' = Inr res" "get_prop res ''metadata'' = Inr md"
    "get_prop md ''ipv4'' = Inr (Some x)"
    by (auto simp: get_ip_try_def split: sum.splits if_splits)
  moreover from this(3) obtain m where "md = Some (JObj m)" "map_of m ''ipv4'' = Some x"
    using get_prop_Some by blast
  moreover from calculation obtain rs where "res = Some (JObj rs)" "map_of rs ''metadata'' = Some (JObj m)"
    using get_prop_Some by blast
  moreover from calculation obtain root where "js = JObj root" "map_of root ''result'' = Some (JObj rs)"
    using get_prop_Some [of "Some js" "''result''" "JObj rs"] by auto
  ultimately show ?thesis by (simp add: address_field_def)
qed

lemma get_ip_of_unknown:
  assumes "unknown_response r"
  shows "get_ip_of i r = ([], Inr (Some JNull)) \<or>
         get_ip_of i r = ([Log (EmptyMetadata i)], Inr (Some JNull)) \<or>
         get_ip_of i r = ([], Inr None)"
proof (cases "status r \<noteq> 200")
  case True
  then show ?thesis by (simp add: get_ip_of_def ret_def)
next
  case ok: False
  show ?thesis
  proof (cases "get_ip_try r")
    case (Inl e)
    then show ?thesis using ok by (simp add: get_ip_of_def ret_def and_then_def emit_def)
  next
    case (Inr v)
    have "v = None \<or> v = Some JNull"
    proof (rule ccontr)
      assume "\<not> (v = None \<or> v = Some JNull)"
      then obtain x where v: "v = Some x" "x \<noteq> JNull" by (cases v) auto
      obtain js where js: "body r = Some js"
        using Inr by (cases "body r") (auto simp: get_ip_try_def)
      have af: "address_field js = Some x" using get_ip_try_value [OF js] Inr v by simp
      have "get_prop (Some js) ''success'' = Inr (Some (JBool True))"
        using Inr v js by (auto simp: get_ip_try_def split: sum.splits if_splits)
      then show False using assms ok js af v(2) by (simp add: unknown_response_def)
    qed
    then show ?thesis using ok Inr by (auto simp: get_ip_of_def ret_def)
  qed
qed

lemma address_null: "ip d = Some JNull \<Longrightarrow> address d = None"
  by (simp add: address_def or_empty_def isIPv4_call_def isIPv4_def)

lemma address_undefined: "ip d = None \<Longrightarrow> address d = None"
  by (simp add: address_def or_empty_def isIPv4_call_def isIPv4_def)

lemma skipped_null:
  "ip d = Some JNull \<Longrightarrow>
   update_dns_record toLowerCase acc zone_id zone_name recs d = ([], Inr ())"
  by (simp add: update_dns_record_branches or_empty_def isIPv4_call_def isIPv4_def ret_def)

lemma skipped_undefined:
  "ip d = None \<Longrightarrow> update_dns_record toLowerCase acc zone_id zone_name recs d = ([], Inr ())"
  by (simp add: update_dns_record_branches or_empty_def isIPv4_call_def isIPv4_def ret_def)

text \<open>
  Claim C6, as the code has it. When the address lookup of a device answers with a status
  other than 200, with a payload whose success flag is not true, or with a payload that has
  no address field (no metadata block and an empty metadata block among them), the lookup
  step of the cycle goes on without an error and without a record mutation, and the device's
  address is \<^verbatim>\<open>null\<close> or \<^verbatim>\<open>undefined\<close>. For such a device \<open>update_dns_record\<close> makes no
  create and no update call and reports no outcome: it returns at its address check without
  a log line.
\<close>

theorem unresolved_device_passed_over:
  assumes "fetch_warp svc account_id i api_token = Inr r"
    and "unknown_response r"
    and "map_of devs i = Some d"
    and "ip d = Some JNull"
  shows "\<exists>es devs' d'. find_ip svc account_id api_token devs i = (es, Inr devs') \<and>
           calls_of es = [] \<and> map_of devs' i = Some d' \<and>
           (ip d' = Some JNull \<or> ip d' = None) \<and> address d' = None \<and>
           update_dns_record toLowerCase acc zone_id zone_name recs d' = ([], Inr ())"
proof -
  have f: "find_ip svc account_id api_token devs i =
        and_then (and_then ([Fetch account_id i api_token], Inr r) (get_ip_of i))
       (\<lambda>ipv. if ipv = Some JNull then ret devs
              else (case map_of devs i of
                      None \<Rightarrow> ([], Inl TypeError)
                    | Some d \<Rightarrow>
                        and_then (emit (Log (HasIp (name d) ipv)))
                          (\<lambda>_. ret (obj_set i (d\<lparr>ip := ipv\<rparr>) devs))))"
    by (simp add: find_ip_def get_ip_def remote_def assms(1))
  from get_ip_of_unknown [OF assms(2), of i]
  consider (null) es where "get_ip_of i r = (es, Inr (Some JNull))" "calls_of es = []"
    | (undef) "get_ip_of i r = ([], Inr None)"
    by (auto simp: calls_of_def)
  then show ?thesis
  proof cases
    case null
    then have "find_ip svc account_id api_token devs i = (Fetch account_id i api_token # es, Inr devs)"
      by (simp add: f and_then_def ret_def)
    moreover have "calls_of (Fetch account_id i api_token # es) = []"
      using null(2) by (simp add: calls_of_def)
    ultimately show ?thesis
      using assms(3) assms(4) address_null [OF assms(4)] skipped_null [OF assms(4)] by blast
  next
    case undef
    let ?d = "d\<lparr>ip := None\<rparr>"
    have "find_ip svc account_id api_token devs i =
            ([Fetch account_id i api_token, Log (HasIp (name d) None)], Inr (obj_set i ?d devs))"
      by (simp add: f undef and_then_def ret_def emit_def assms(3))
    moreover have "calls_of [Fetch account_id i api_token, Log (HasIp (name d) None)] = []"
      by (simp add: calls_of_def)
    moreover have "map_of (obj_set i ?d devs) i = Some ?d"
      by (simp add: map_of_obj_set)
    moreover have "ip ?d = None" by simp
    moreover have "address ?d = None" by (simp add: address_undefined)
    moreover have "update_dns_record toLowerCase acc zone_id zone_name recs ?d = ([], Inr ())"
      by (simp add: skipped_undefined)
    ultimately show ?thesis by blast
  qed
qed

text \<open>
  Claim C6 fails as stated: there is no outcome "skipped". For one device whose lookup
  answers with an empty metadata block, all the cycle reports about the device is that it
  "has IP address undefined"; no outcome of any kind follows.
\<close>

theorem unresolved_device_counterexample:
  "scheduled
     (example_services
        [\<lparr>device_id = ''id1'', device_name = ''a'', updated_at = ''2024-01-01T00:00:00Z''\<rparr>]
        (\<lambda>d. empty_metadata_answer) [] (\<lambda>c. True))
     example_Date ascii_lower example_env =
   ([ZonesGet ''z'', Log (Updating ''example.com''), DevicesList ''account'',
     Log (FoundDevices 1), Fetch ''account'' ''id1'' ''token'', Log (HasIp ''a'' None),
     RecordsList ''z'', Log (FoundRecords 0)], Inr ())"
proof -
  let ?obs = "[\<lparr>device_id = ''id1'', device_name = ''a'', updated_at = ''2024-01-01T00:00:00Z''\<rparr>]"
  let ?svc = "example_services ?obs (\<lambda>d. empty_metadata_answer) [] (\<lambda>c. True)"
  let ?d = "\<lparr>name = ''a'', updated = Some 1704067200000, ip = Some JNull\<rparr>"
  have g: "get_devices example_Date ?obs = [(''id1'', ?d)]"
    by (simp add: get_devices_def add_device_def obj_set_def example_Date_def)
  have i: "get_ip ?svc ''account'' ''id1'' ''token'' = ([Fetch ''account'' ''id1'' ''token''], Inr None)"
    by (simp add: get_ip_def example_services_def remote_def and_then_def get_ip_of_def
        get_ip_try_def get_prop_def ret_def empty_metadata_answer_def)
  have f: "find_ips ?svc ''account'' ''token'' [''id1''] [(''id1'', ?d)] =
      ([Fetch ''account'' ''id1'' ''token'', Log (HasIp ''a'' None)],
       Inr [(''id1'', \<lparr>name = ''a'', updated = Some 1704067200000, ip = None\<rparr>)])"
    by (simp add: find_ip_def i and_then_def ret_def emit_def obj_set_def)
  have u: "update_dns_records ascii_lower (\<lambda>c. True) ''z'' ''example.com'' []
             [(''id1'', \<lparr>name = ''a'', updated = Some 1704067200000, ip = None\<rparr>)] = ([], Inr ())"
    by (simp add: skipped_undefined and_then_def ret_def)
  have z: "get_zone_name ?svc ''z'' = ([ZonesGet ''z''], Inr ''example.com'')"
    by (simp add: get_zone_name_def remote_def example_services_def)
  have d: "get_devices_call ?svc example_Date ''account'' = ([DevicesList ''account''], Inr [(''id1'', ?d)])"
    by (simp add: get_devices_call_def remote_def example_services_def and_then_def ret_def g)
  have r: "get_dns_records_call ?svc ''z'' = ([RecordsList ''z''], Inr [])"
    by (simp add: get_dns_records_call_def remote_def example_services_def and_then_def ret_def
        get_dns_records_def)
  have a: "accepts ?svc = (\<lambda>c. True)" by (simp add: example_services_def)
  show ?thesis
    by (simp add: scheduled_def example_env_def z d r a f u and_then_def emit_def
        del: find_ips.simps update_dns_records.simps)
qed

theorem unresolved_device_passed_over_witness:
  "fetch_warp
     (example_services
        [\<lparr>device_id = ''id1'', device_name = ''a'', updated_at = ''2024-01-01T00:00:00Z''\<rparr>]
        (\<lambda>d. empty_metadata_answer) [] (\<lambda>c. True))
     ''account'' ''id1'' ''token'' = Inr empty_metadata_answer \<and>
   unknown_response empty_metadata_answer \<and>
   unknown_response \<lparr>status = 404, body = None\<rparr> \<and>
   unknown_response \<lparr>status = 200, body = Some (JObj [(''success'', JBool False)])\<rparr> \<and>
   unknown_response \<lparr>status = 200, body = Some (JObj [(''success'', JBool True)])\<rparr> \<and>
   (\<exists>es devs' d'.
      find_ip
        (example_services
           [\<lparr>device_id = ''id1'', device_name = ''a'', updated_at = ''2024-01-01T00:00:00Z''\<rparr>]
           (\<lambda>d. empty_metadata_answer) [] (\<lambda>c. True))
        ''account'' ''token''
        [(''id1'', \<lparr>name = ''a'', updated = Some 1704067200000, ip = Some JNull\<rparr>)] ''id1'' =
        (es, Inr devs') \<and>
      calls_of es = [] \<and> map_of devs' ''id1'' = Some d' \<and>
      (ip d' = Some JNull \<or> ip d' = None) \<and> address d' = None \<and>
      update_dns_record ascii_lower (\<lambda>c. True) ''z'' ''example.com'' [] d' = ([], Inr ()))"
proof -
  let ?obs = "[\<lparr>device_id = ''id1'', device_name = ''a'', updated_at = ''2024-01-01T00:00:00Z''\<rparr>]"
  let ?svc = "example_services ?obs (\<lambda>d. empty_metadata_answer) [] (\<lambda>c. True)"
  let ?d = "\<lparr>name = ''a'', updated = Some 1704067200000, ip = Some JNull\<rparr>"
  have h1: "fetch_warp ?svc ''account'' ''id1'' ''token'' = Inr empty_metadata_answer"
    by (simp add: example_services_def)
  have h2: "unknown_response empty_metadata_answer"
    by (simp add: unknown_response_def empty_metadata_answer_def get_prop_def address_field_def)
  have h2a: "unknown_response \<lparr>status = 404, body = None\<rparr>"
    by (simp add: unknown_response_def)
  have h2b: "unknown_response \<lparr>status = 200, body = Some (JObj [(''success'', JBool False)])\<rparr>"
    by (simp add: unknown_response_def get_prop_def)
  have h2c: "unknown_response \<lparr>status = 200, body = Some (JObj [(''success'', JBool True)])\<rparr>"
    by (simp add: unknown_response_def get_prop_def address_field_def)
  have h3: "map_of [(''id1'', ?d)] ''id1'' = Some ?d" by simp
  have h4: "ip ?d = Some JNull" by simp
  show ?thesis
    using h1 h2 h2a h2b h2c
      unresolved_device_passed_over [OF h1 h2 h3 h4, of ascii_lower "\<lambda>c. True" "''z''"
        "''example.com''" "[]"]
    by blast
qed

section \<open>Properties of get_devices\<close>

text \<open>The definitions that evaluate an assignment to an object on literals.\<close>

lemmas obj_eval = obj_set_def goes_before_def is_array_index_def is_digit_def

lemma get_devices_append:
  "get_devices Date (xs @ ys) = foldl (add_device Date) (get_devices Date xs) ys"
  by (simp add: get_devices_def)

lemma add_device_malformed:
  assumes "Date (updated_at ob) = None"
  shows "add_device Date devs ob =
           (if device_name ob \<in> name ` snd ` set devs then devs
            else obj_set (device_id ob)
                   \<lparr>name = device_name ob, updated = None, ip = Some JNull\<rparr> devs)"
proof (cases "filter (\<lambda>d. name d = device_name ob) (map snd devs)")
  case Nil
  then have "device_name ob \<notin> name ` snd ` set devs"
    by (auto simp: filter_empty_conv)
  then show ?thesis using Nil assms by (simp add: add_device_def)
next
  case (Cons e es)
  then have "e \<in> set (filter (\<lambda>d. name d = device_name ob) (map snd devs))" by simp
  then have "device_name ob \<in> name ` snd ` set devs" by force
  then show ?thesis using Cons assms by (simp add: add_device_def date_lt_def split: option.splits)
qed

text \<open>
  Claim C8, as the code has it. An observation with a malformed timestamp never ends the
  batch. When an entry with its name is already in the mapping it is dropped, and the result
  is that of the batch without it; when none is, it is stored under its identifier with an
  invalid date and the remaining observations are processed from that mapping.
\<close>

theorem malformed_timestamp_kept_or_dropped:
  assumes "Date (updated_at ob) = None"
  shows "get_devices Date (xs @ ob # ys) =
           (if device_name ob \<in> name ` snd ` set (get_devices Date xs)
            then get_devices Date (xs @ ys)
            else foldl (add_device Date)
                   (obj_set (device_id ob)
                      \<lparr>name = device_name ob, updated = None, ip = Some JNull\<rparr>
                      (get_devices Date xs)) ys)"
  using assms add_device_malformed [of Date ob "get_devices Date xs"]
  by (simp add: get_devices_append)

text \<open>
  Claim C8 fails as stated: a first observation with a malformed timestamp is stored, and the
  later, well-formed observation of the same name is the one that is dropped.
\<close>

theorem malformed_timestamp_counterexample:
  "get_devices example_Date
     [\<lparr>device_id = ''id1'', device_name = ''a'', updated_at = ''yesterday''\<rparr>,
      \<lparr>device_id = ''id2'', device_name = ''a'', updated_at = ''2024-01-02T00:00:00Z''\<rparr>] =
   [(''id1'', \<lparr>name = ''a'', updated = None, ip = Some JNull\<rparr>)]"
  by (simp add: get_devices_def add_device_def obj_eval date_lt_def Let_def example_Date_def)

theorem malformed_timestamp_kept_or_dropped_witness:
  "example_Date
     (updated_at \<lparr>device_id = ''id2'', device_name = ''a'', updated_at = ''yesterday''\<rparr>) = None \<and>
   get_devices example_Date
     ([\<lparr>device_id = ''id1'', device_name = ''a'', updated_at = ''2024-01-02T00:00:00Z''\<rparr>] @
      \<lparr>device_id = ''id2'', device_name = ''a'', updated_at = ''yesterday''\<rparr> # []) =
   [(''id1'', \<lparr>name = ''a'', updated = Some 1704153600000, ip = Some JNull\<rparr>)] \<and>
   get_devices example_Date
     ([] @ \<lparr>device_id = ''id2'', device_name = ''a'', updated_at = ''yesterday''\<rparr> # []) =
   [(''id2'', \<lparr>name = ''a'', updated = None, ip = Some JNull\<rparr>)]"
proof -
  let ?D = "example_Date"
  let ?o1 = "\<lparr>device_id = ''id1'', device_name = ''a'', updated_at = ''2024-01-02T00:00:00Z''\<rparr>"
  let ?o2 = "\<lparr>device_id = ''id2'', device_name = ''a'', updated_at = ''yesterday''\<rparr>"
  have h: "?D (updated_at ?o2) = None" by (simp add: example_Date_def)
  have g1: "get_devices ?D [?o1] = [(''id1'', \<lparr>name = ''a'', updated = Some 1704153600000, ip = Some JNull\<rparr>)]"
    by (simp add: get_devices_def add_device_def obj_set_def example_Date_def)
  have g0: "get_devices ?D [] = []" by (simp add: get_devices_def)
  show ?thesis
    using h malformed_timestamp_kept_or_dropped [of ?D ?o2 "[?o1]" "[]"]
      malformed_timestamp_kept_or_dropped [of ?D ?o2 "[]" "[]"]
    by (simp add: g1 g0 obj_set_def)
qed

text \<open>
  Claim C1 at two observations of one name under two identifiers: the newer one is added
  beside the older one, which is not removed, so two entries of that name are returned.
\<close>

theorem stale_entry_survives:
  "get_devices example_Date
     [\<lparr>device_id = ''id1'', device_name = ''a'', updated_at = ''2024-01-01T00:00:00Z''\<rparr>,
      \<lparr>device_id = ''id2'', device_name = ''a'', updated_at = ''2024-01-02T00:00:00Z''\<rparr>] =
   [(''id1'', \<lparr>name = ''a'', updated = Some 1704067200000, ip = Some JNull\<rparr>),
    (''id2'', \<lparr>name = ''a'', updated = Some 1704153600000, ip = Some JNull\<rparr>)]"
  by (simp add: get_devices_def add_device_def obj_eval date_lt_def Let_def example_Date_def)

section \<open>A second cycle\<close>















section \<open>The calls of a cycle\<close>

lemma calls_of_append: "calls_of (xs @ ys) = calls_of xs @ calls_of ys"
  by (simp add: calls_of_def)

lemma calls_and_then:
  "calls_of (fst (and_then m f)) =
     calls_of (fst m) @ (case snd m of Inl e \<Rightarrow> [] | Inr x \<Rightarrow> calls_of (fst (f x)))"
proof -
  obtain es r where m: "m = (es, r)" by (cases m)
  show ?thesis
  proof (cases r)
    case (Inl e)
    then show ?thesis by (simp add: m and_then_def)
  next
    case (Inr x)
    obtain es' r' where f: "f x = (es', r')" by (cases "f x")
    show ?thesis by (simp add: m Inr f and_then_def calls_of_append)
  qed
qed

lemma calls_ret: "calls_of (fst (ret x)) = []"
  by (simp add: ret_def calls_of_def)


lemma get_ip_of_calls: "calls_of (fst (get_ip_of i r)) = []"
proof (cases "get_ip_try r")
  case (Inl e)
  then show ?thesis
    by (simp add: get_ip_of_def ret_def and_then_def emit_def calls_of_def)
next
  case (Inr v)
  then show ?thesis by (simp add: get_ip_of_def ret_def calls_of_def)
qed

lemma calls_remote: "calls_of (fst (remote e r)) = calls_of [e]" "snd (remote e r) = r"
  by (simp_all add: remote_def)

lemma snd_emit: "snd (emit e) = Inr ()"
  by (simp add: emit_def)

lemma calls_of_not_Call:
  "calls_of [ZonesGet z] = []" "calls_of [DevicesList a] = []" "calls_of [RecordsList z] = []"
  "calls_of [Fetch a d t] = []" "calls_of [Log m] = []"
  by (simp_all add: calls_of_def)

lemma get_ip_calls: "calls_of (fst (get_ip svc account_id i api_token)) = []"
proof (cases "fetch_warp svc account_id i api_token")
  case (Inl e)
  then show ?thesis by (simp add: get_ip_def remote_def and_then_def calls_of_not_Call)
next
  case (Inr r)
  then show ?thesis
    using get_ip_of_calls [of i r]
    by (simp add: get_ip_def calls_and_then calls_remote calls_of_not_Call)
qed

lemma find_ip_calls: "calls_of (fst (find_ip svc account_id api_token devs i)) = []"
proof -
  obtain es r where g: "get_ip svc account_id i api_token = (es, r)"
    by (cases "get_ip svc account_id i api_token")
  have es: "calls_of es = []" using get_ip_calls [of svc account_id i api_token] g by simp
  show ?thesis
  proof (cases r)
    case (Inl e)
    then show ?thesis using es by (simp add: find_ip_def g and_then_def)
  next
    case (Inr ipv)
    show ?thesis
    proof (cases "ipv = Some JNull")
      case True
      then show ?thesis using es Inr by (simp add: find_ip_def g and_then_def ret_def)
    next
      case False
      show ?thesis
      proof (cases "map_of devs i")
        case None
        then show ?thesis using es Inr False by (simp add: find_ip_def g and_then_def)
      next
        case (Some d)
        then show ?thesis using es Inr False
          by (simp add: find_ip_def g and_then_def ret_def emit_def calls_of_append calls_of_not_Call)
      qed
    qed
  qed
qed

lemma find_ips_calls: "calls_of (fst (find_ips svc account_id api_token ids devs)) = []"
proof (induction ids arbitrary: devs)
  case Nil
  show ?case by (simp add: calls_ret)
next
  case (Cons i ids)
  show ?case
    by (cases "snd (find_ip svc account_id api_token devs i)")
       (simp_all add: calls_and_then find_ip_calls Cons)
qed



lemma cycle_devices_SomeD:
  assumes "cycle_devices svc Date ev = Some (zone_id, zone_name, devs)"
  obtains account_id api_token obs es where
    "ACCOUNT_ID ev = Some account_id" "ZONE_ID ev = Some zone_id" "API_TOKEN ev = Some api_token"
    "zones_get svc zone_id = Inr zone_name" "devices_list svc account_id = Inr obs"
    "find_ips svc account_id api_token (map fst (get_devices Date obs)) (get_devices Date obs) =
       (es, Inr devs)"
proof -
  from assms obtain account_id api_token obs where
    e: "ACCOUNT_ID ev = Some account_id" "ZONE_ID ev = Some zone_id" "API_TOKEN ev = Some api_token"
      "zones_get svc zone_id = Inr zone_name" "devices_list svc account_id = Inr obs"
    and f: "snd (find_ips svc account_id api_token (map fst (get_devices Date obs))
                  (get_devices Date obs)) = Inr devs"
    by (auto simp: cycle_devices_def split: option.splits sum.splits)
  from f have "find_ips svc account_id api_token (map fst (get_devices Date obs)) (get_devices Date obs) =
       (fst (find_ips svc account_id api_token (map fst (get_devices Date obs)) (get_devices Date obs)),
        Inr devs)"
    by (metis prod.collapse)
  with e show ?thesis using that by blast
qed

text \<open>
  A cycle that comes to list the records: what it does before makes no call, and from
  there on it is \<open>update_dns_records\<close> on the records listed.
\<close>

lemma scheduled_reaches:
  assumes "cycle_devices svc Date ev = Some (zone_id, zone_name, devs)"
    and "records_list svc zone_id = Inr listing"
  shows "\<exists>es0. calls_of es0 = [] \<and>
           scheduled svc Date toLowerCase ev =
             (es0 @ fst (update_dns_records toLowerCase (accepts svc) zone_id zone_name
                           (get_dns_records listing) devs),
              snd (update_dns_records toLowerCase (accepts svc) zone_id zone_name
                     (get_dns_records listing) devs))"
proof -
  from assms(1) obtain account_id api_token obs es where
    e: "ACCOUNT_ID ev = Some account_id" "ZONE_ID ev = Some zone_id" "API_TOKEN ev = Some api_token"
    and z0: "zones_get svc zone_id = Inr zone_name" and d0: "devices_list svc account_id = Inr obs"
    and f: "find_ips svc account_id api_token (map fst (get_devices Date obs)) (get_devices Date obs) =
       (es, Inr devs)"
    by (rule cycle_devices_SomeD)
  have es: "calls_of es = []"
    using find_ips_calls [of svc account_id api_token "map fst (get_devices Date obs)" "get_devices Date obs"]
      f by simp
  have z: "get_zone_name svc zone_id = ([ZonesGet zone_id], Inr zone_name)"
    by (simp add: get_zone_name_def remote_def z0)
  have d: "get_devices_call svc Date account_id = ([DevicesList account_id], Inr (get_devices Date obs))"
    by (simp add: get_devices_call_def remote_def and_then_def ret_def d0)
  have r: "get_dns_records_call svc zone_id = ([RecordsList zone_id], Inr (get_dns_records listing))"
    by (simp add: get_dns_records_call_def remote_def and_then_def ret_def assms(2))
  obtain us res where u: "update_dns_records toLowerCase (accepts svc) zone_id zone_name
                           (get_dns_records listing) devs = (us, res)"
    by (cases "update_dns_records toLowerCase (accepts svc) zone_id zone_name
                           (get_dns_records listing) devs")
  let ?es0 = "[ZonesGet zone_id, Log (Updating zone_name), DevicesList account_id,
       Log (FoundDevices (length (get_devices Date obs)))] @ es @
      [RecordsList zone_id, Log (FoundRecords (length (get_dns_records listing)))]"
  have "scheduled svc Date toLowerCase ev = (?es0 @ us, res)"
    by (simp add: scheduled_def e z d r f u and_then_def emit_def)
  moreover have "calls_of ?es0 = []"
    using es by (simp add: calls_of_append) (simp add: calls_of_def)
  ultimately show ?thesis unfolding u by (metis fst_conv snd_conv)
qed




section \<open>Properties of update_dns_records\<close>

lemma update_dns_records_append:
  assumes "update_dns_records toLowerCase acc zone_id zone_name recs pre = (es1, Inr ())"
  shows "update_dns_records toLowerCase acc zone_id zone_name recs (pre @ rest) =
           (es1 @ fst (update_dns_records toLowerCase acc zone_id zone_name recs rest),
            snd (update_dns_records toLowerCase acc zone_id zone_name recs rest))"
  using assms
proof (induction pre arbitrary: es1)
  case Nil
  then show ?case by (simp add: ret_def)
next
  case (Cons a pre)
  obtain i dev where a: "a = (i, dev)" by (cases a)
  obtain e0 r0 where d: "update_dns_record toLowerCase acc zone_id zone_name recs dev = (e0, r0)"
    by (cases "update_dns_record toLowerCase acc zone_id zone_name recs dev")
  obtain e1 r1 where p: "update_dns_records toLowerCase acc zone_id zone_name recs pre = (e1, r1)"
    by (cases "update_dns_records toLowerCase acc zone_id zone_name recs pre")
  from Cons.prems have r0: "r0 = Inr ()" and r1: "r1 = Inr ()" and es1: "es1 = e0 @ e1"
    unfolding a by (auto simp: d p and_then_def split: sum.splits)
  have "update_dns_records toLowerCase acc zone_id zone_name recs (pre @ rest) =
           (e1 @ fst (update_dns_records toLowerCase acc zone_id zone_name recs rest),
            snd (update_dns_records toLowerCase acc zone_id zone_name recs rest))"
    using Cons.IH [of e1] p r1 by simp
  then show ?case
    unfolding a by (simp add: d r0 es1 and_then_def)
qed

lemma rejected_call_throws:
  assumes "calls_of (fst (update_dns_record toLowerCase acc zone_id zone_name recs dev)) = [c]"
    and "\<not> acc c"
  shows "update_dns_record toLowerCase acc zone_id zone_name recs dev = ([Call c], Inl ApiError)"
  using assms
  by (auto simp: update_dns_record_branches Let_def ret_def and_then_def mutate_def remote_def
      emit_def calls_of_def split: sum.splits if_splits list.splits prod.splits)


text \<open>The loop ends at the first device whose call is rejected.\<close>

lemma rejected_call_ends_loop:
  assumes "update_dns_records toLowerCase acc zone_id zone_name recs pre = (es, Inr ())"
    and "calls_of (fst (update_dns_record toLowerCase acc zone_id zone_name recs dev)) = [c]"
    and "\<not> acc c"
  shows "update_dns_records toLowerCase acc zone_id zone_name recs (pre @ (i, dev) # post) =
           (es @ [Call c], Inl ApiError)"
  using update_dns_records_append [OF assms(1), of "(i, dev) # post"]
    rejected_call_throws [OF assms(2) assms(3)]
  by (simp add: and_then_def)

text \<open>
  Claim C7, as the code has it. A rejected create or update call throws, and nothing
  catches it. When a cycle has come to its devices and the loop of \<open>update_dns_records\<close>
  reaches a device whose call the provider rejects, the error leaves \<open>update_dns_records\<close>
  and \<open>scheduled\<close>: the cycle ends with that error. The calls made for the devices before
  it stand, the rejected call is the last event of the cycle, and no call is made for any
  device after it.
\<close>

theorem rejected_call_aborts_cycle:
  assumes "cycle_devices svc Date ev = Some (zone_id, zone_name, pre @ (i, dev) # post)"
    and "records_list svc zone_id = Inr listing"
    and "update_dns_records toLowerCase (accepts svc) zone_id zone_name
           (get_dns_records listing) pre = (es, Inr ())"
    and "calls_of (fst (update_dns_record toLowerCase (accepts svc) zone_id zone_name
           (get_dns_records listing) dev)) = [c]"
    and "\<not> accepts svc c"
  shows "update_dns_records toLowerCase (accepts svc) zone_id zone_name
           (get_dns_records listing) (pre @ (i, dev) # post) = (es @ [Call c], Inl ApiError) \<and>
         snd (scheduled svc Date toLowerCase ev) = Inl ApiError \<and>
         calls_of (fst (scheduled svc Date toLowerCase ev)) = calls_of es @ [c] \<and>
         (\<exists>es0. calls_of es0 = [] \<and>
            fst (scheduled svc Date toLowerCase ev) = es0 @ es @ [Call c])"
proof -
  have loop: "update_dns_records toLowerCase (accepts svc) zone_id zone_name
           (get_dns_records listing) (pre @ (i, dev) # post) = (es @ [Call c], Inl ApiError)"
    using assms(3-5) by (rule rejected_call_ends_loop)
  from scheduled_reaches [OF assms(1) assms(2), of toLowerCase]
  obtain es0 where es0: "calls_of es0 = []"
    and s: "scheduled svc Date toLowerCase ev = (es0 @ es @ [Call c], Inl ApiError)"
    unfolding loop by auto
  have "calls_of (es0 @ es @ [Call c]) = calls_of es @ [c]"
    using es0 by (simp add: calls_of_append) (simp add: calls_of_def)
  then show ?thesis using loop es0 s by auto
qed

lemma address_string: "ip d = Some (JStr s) \<Longrightarrow> isIPv4 s \<Longrightarrow> address d = Some s"
  by (simp add: address_def or_empty_def isIPv4_call_def)

lemma isIPv4_more_examples: "isIPv4 ''10.0.0.2''" "isIPv4 ''2.2.2.2''"
  by (simp_all add: isIPv4_eval)

text \<open>
  Claim C7 fails as stated: the provider rejects the create for the first of two devices;
  the second device on its own would be created, but in the cycle no call is made for it and
  the cycle ends with the error.
\<close>

theorem rejected_call_counterexample:
  "update_dns_records ascii_lower
     (\<lambda>c. c \<noteq> Create \<lparr>p_name = ''a.example.com'', p_type = ''A'', p_zone_id = ''z'',
                        p_content = ''10.0.0.1'', p_ttl = 300\<rparr>)
     ''z'' ''example.com'' []
     [(''id1'', \<lparr>name = ''a'', updated = Some 1, ip = Some (JStr ''10.0.0.1'')\<rparr>),
      (''id2'', \<lparr>name = ''b'', updated = Some 2, ip = Some (JStr ''10.0.0.2'')\<rparr>)] =
   ([Call (Create \<lparr>p_name = ''a.example.com'', p_type = ''A'', p_zone_id = ''z'',
                    p_content = ''10.0.0.1'', p_ttl = 300\<rparr>)], Inl ApiError) \<and>
   update_dns_record ascii_lower
     (\<lambda>c. c \<noteq> Create \<lparr>p_name = ''a.example.com'', p_type = ''A'', p_zone_id = ''z'',
                        p_content = ''10.0.0.1'', p_ttl = 300\<rparr>)
     ''z'' ''example.com'' []
     \<lparr>name = ''b'', updated = Some 2, ip = Some (JStr ''10.0.0.2'')\<rparr> =
   ([Call (Create \<lparr>p_name = ''b.example.com'', p_type = ''A'', p_zone_id = ''z'',
                    p_content = ''10.0.0.2'', p_ttl = 300\<rparr>),
     Log (DnsRecordFor ''b.example.com'' created_word)], Inr ())"
proof -
  let ?d1 = "\<lparr>name = ''a'', updated = Some 1, ip = Some (JStr ''10.0.0.1'')\<rparr>"
  let ?d2 = "\<lparr>name = ''b'', updated = Some 2, ip = Some (JStr ''10.0.0.2'')\<rparr>"
  have a1: "address ?d1 = Some ''10.0.0.1''" by (simp add: address_string isIPv4_examples)
  have a2: "address ?d2 = Some ''10.0.0.2''" by (simp add: address_string isIPv4_more_examples)
  have n1: "fqdn ascii_lower ''example.com'' ?d1 = ''a.example.com''" by (simp add: fqdn_def ascii_lower_def)
  have n2: "fqdn ascii_lower ''example.com'' ?d2 = ''b.example.com''" by (simp add: fqdn_def ascii_lower_def)
  have f1: "find (\<lambda>(i, r). record_name r = fqdn ascii_lower ''example.com'' ?d1) [] = None" by simp
  have f2: "find (\<lambda>(i, r). record_name r = fqdn ascii_lower ''example.com'' ?d2) [] = None" by simp
  show ?thesis
    by (simp add: create_case [OF a1 f1] create_case [OF a2 f2] n1 n2 and_then_def mutate_def
        remote_def emit_def)
qed

lemma isIPv4_third_example: "isIPv4 ''10.0.0.3''"
  by (simp add: isIPv4_eval)

lemma example_get_ip_answer:
  "get_ip (example_services obs (\<lambda>d. ipv4_answer (f d)) listing acc) account_id d api_token =
     ([Fetch account_id d api_token], Inr (Some (JStr (f d))))"
  by (simp add: get_ip_def example_services_def ipv4_answer_def remote_def and_then_def
      get_ip_of_def get_ip_try_def get_prop_def ret_def)

lemma example_cycle_devices:
  "cycle_devices (example_services obs answer listing acc) Date example_env =
     (case snd (find_ips (example_services obs answer listing acc) ''account'' ''token''
                  (map fst (get_devices Date obs)) (get_devices Date obs)) of
        Inl e \<Rightarrow> None
      | Inr devs \<Rightarrow> Some (''z'', ''example.com'', devs))"
  by (simp add: cycle_devices_def example_env_def example_services_def)

theorem rejected_call_aborts_cycle_witness:
  "cycle_devices
     (example_services
        [\<lparr>device_id = ''id1'', device_name = ''a'', updated_at = ''2024-01-01T00:00:00Z''\<rparr>,
         \<lparr>device_id = ''id2'', device_name = ''b'', updated_at = ''2024-01-02T00:00:00Z''\<rparr>,
         \<lparr>device_id = ''id3'', device_name = ''c'', updated_at = ''2024-01-02T00:00:00Z''\<rparr>]
        (\<lambda>d. ipv4_answer (if d = ''id1'' then ''10.0.0.1''
                            else if d = ''id2'' then ''10.0.0.2'' else ''10.0.0.3''))
        []
        (\<lambda>c. c \<noteq> Create \<lparr>p_name = ''b.example.com'', p_type = ''A'', p_zone_id = ''z'',
                           p_content = ''10.0.0.2'', p_ttl = 300\<rparr>))
     example_Date example_env =
   Some (''z'', ''example.com'',
     [(''id1'', \<lparr>name = ''a'', updated = Some 1704067200000, ip = Some (JStr ''10.0.0.1'')\<rparr>)] @
     (''id2'', \<lparr>name = ''b'', updated = Some 1704153600000, ip = Some (JStr ''10.0.0.2'')\<rparr>) #
     [(''id3'', \<lparr>name = ''c'', updated = Some 1704153600000, ip = Some (JStr ''10.0.0.3'')\<rparr>)]) \<and>
   snd (scheduled
     (example_services
        [\<lparr>device_id = ''id1'', device_name = ''a'', updated_at = ''2024-01-01T00:00:00Z''\<rparr>,
         \<lparr>device_id = ''id2'', device_name = ''b'', updated_at = ''2024-01-02T00:00:00Z''\<rparr>,
         \<lparr>device_id = ''id3'', device_name = ''c'', updated_at = ''2024-01-02T00:00:00Z''\<rparr>]
        (\<lambda>d. ipv4_answer (if d = ''id1'' then ''10.0.0.1''
                            else if d = ''id2'' then ''10.0.0.2'' else ''10.0.0.3''))
        []
        (\<lambda>c. c \<noteq> Create \<lparr>p_name = ''b.example.com'', p_type = ''A'', p_zone_id = ''z'',
                           p_content = ''10.0.0.2'', p_ttl = 300\<rparr>))
     example_Date ascii_lower example_env) = Inl ApiError \<and>
   calls_of (fst (scheduled
     (example_services
        [\<lparr>device_id = ''id1'', device_name = ''a'', updated_at = ''2024-01-01T00:00:00Z''\<rparr>,
         \<lparr>device_id = ''id2'', device_name = ''b'', updated_at = ''2024-01-02T00:00:00Z''\<rparr>,
         \<lparr>device_id = ''id3'', device_name = ''c'', updated_at = ''2024-01-02T00:00:00Z''\<rparr>]
        (\<lambda>d. ipv4_answer (if d = ''id1'' then ''10.0.0.1''
                            else if d = ''id2'' then ''10.0.0.2'' else ''10.0.0.3''))
        []
        (\<lambda>c. c \<noteq> Create \<lparr>p_name = ''b.example.com'', p_type = ''A'', p_zone_id = ''z'',
                           p_content = ''10.0.0.2'', p_ttl = 300\<rparr>))
     example_Date ascii_lower example_env)) =
   [Create \<lparr>p_name = ''a.example.com'', p_type = ''A'', p_zone_id = ''z'',
             p_content = ''10.0.0.1'', p_ttl = 300\<rparr>,
    Create \<lparr>p_name = ''b.example.com'', p_type = ''A'', p_zone_id = ''z'',
             p_content = ''10.0.0.2'', p_ttl = 300\<rparr>]"
proof -
  let ?obs = "[\<lparr>device_id = ''id1'', device_name = ''a'', updated_at = ''2024-01-01T00:00:00Z''\<rparr>,
         \<lparr>device_id = ''id2'', device_name = ''b'', updated_at = ''2024-01-02T00:00:00Z''\<rparr>,
         \<lparr>device_id = ''id3'', device_name = ''c'', updated_at = ''2024-01-02T00:00:00Z''\<rparr>]"
  let ?f = "\<lambda>d. if d = ''id1'' then ''10.0.0.1'' else if d = ''id2'' then ''10.0.0.2'' else ''10.0.0.3''"
  let ?cb = "Create \<lparr>p_name = ''b.example.com'', p_type = ''A'', p_zone_id = ''z'',
                           p_content = ''10.0.0.2'', p_ttl = 300\<rparr>"
  let ?ca = "Create \<lparr>p_name = ''a.example.com'', p_type = ''A'', p_zone_id = ''z'',
                           p_content = ''10.0.0.1'', p_ttl = 300\<rparr>"
  let ?acc = "\<lambda>c. c \<noteq> ?cb"
  let ?svc = "example_services ?obs (\<lambda>d. ipv4_answer (?f d)) [] ?acc"
  let ?d1 = "\<lparr>name = ''a'', updated = Some 1704067200000, ip = Some (JStr ''10.0.0.1'')\<rparr>"
  let ?d2 = "\<lparr>name = ''b'', updated = Some 1704153600000, ip = Some (JStr ''10.0.0.2'')\<rparr>"
  let ?d3 = "\<lparr>name = ''c'', updated = Some 1704153600000, ip = Some (JStr ''10.0.0.3'')\<rparr>"
  have g: "get_devices example_Date ?obs =
     [(''id1'', \<lparr>name = ''a'', updated = Some 1704067200000, ip = Some JNull\<rparr>),
      (''id2'', \<lparr>name = ''b'', updated = Some 1704153600000, ip = Some JNull\<rparr>),
      (''id3'', \<lparr>name = ''c'', updated = Some 1704153600000, ip = Some JNull\<rparr>)]"
    by (simp add: get_devices_def add_device_def obj_eval date_lt_def Let_def example_Date_def)
  have f: "snd (find_ips ?svc ''account'' ''token'' (map fst (get_devices example_Date ?obs))
                  (get_devices example_Date ?obs)) =
           Inr ([(''id1'', ?d1)] @ (''id2'', ?d2) # [(''id3'', ?d3)])"
    unfolding g
    by (simp add: find_ip_def example_get_ip_answer and_then_def ret_def emit_def obj_set_def)
  have cd: "cycle_devices ?svc example_Date example_env =
      Some (''z'', ''example.com'', [(''id1'', ?d1)] @ (''id2'', ?d2) # [(''id3'', ?d3)])"
    unfolding example_cycle_devices f by simp
  have rl: "records_list ?svc ''z'' = Inr []" by (simp add: example_services_def)
  have ac: "accepts ?svc = ?acc" by (simp add: example_services_def)
  have g0: "get_dns_records [] = []" by (simp add: get_dns_records_def)
  have a1: "address ?d1 = Some ''10.0.0.1''" by (simp add: address_string isIPv4_examples)
  have a2: "address ?d2 = Some ''10.0.0.2''" by (simp add: address_string isIPv4_more_examples)
  have n1: "fqdn ascii_lower ''example.com'' ?d1 = ''a.example.com''"
    by (simp add: fqdn_def ascii_lower_def)
  have n2: "fqdn ascii_lower ''example.com'' ?d2 = ''b.example.com''"
    by (simp add: fqdn_def ascii_lower_def)
  have f1: "find (\<lambda>(i, r). record_name r = fqdn ascii_lower ''example.com'' ?d1) [] = None" by simp
  have f2: "find (\<lambda>(i, r). record_name r = fqdn ascii_lower ''example.com'' ?d2) [] = None" by simp
  have pre: "update_dns_records ascii_lower (accepts ?svc) ''z'' ''example.com''
               (get_dns_records []) [(''id1'', ?d1)] =
             ([Call ?ca, Log (DnsRecordFor ''a.example.com'' created_word)], Inr ())"
    unfolding ac g0
    by (simp add: create_case [OF a1 f1] n1 and_then_def mutate_def remote_def emit_def ret_def)
  have one: "calls_of (fst (update_dns_record ascii_lower (accepts ?svc) ''z'' ''example.com''
               (get_dns_records []) ?d2)) = [?cb]"
    unfolding ac g0 by (simp add: create_case [OF a2 f2] n2 calls_mutate_then_log)
  have rej: "\<not> accepts ?svc ?cb" by (simp add: ac)
  have cs: "calls_of [Call ?ca, Log (DnsRecordFor ''a.example.com'' created_word)] = [?ca]"
    by (simp add: calls_of_def)
  show ?thesis
    using cd rejected_call_aborts_cycle [OF cd rl pre one rej]
    unfolding cs by simp
qed


section \<open>The second cycle of scheduled\<close>
















end
